theory Spec2Isabelle
  imports Complex_Main "HOL-Library.AList"
begin

section \<open>Python and numpy values\<close>

text \<open>
  The exceptions that the modelled statements of \<open>dataset_gui.py\<close> can raise.
  \<open>TypeError\<close> is what \<open>np.max\<close> raises on the record array returned by
  \<open>read_where\<close> (no maximum exists on table records); \<open>UnboundLocalError\<close> is the
  read of a local variable that no statement has assigned yet.
\<close>

datatype py_error = KeyError | IndexError | ValueError | TypeError | UnboundLocalError | OSError

text \<open>
  A numpy \<open>float64\<close>. Finite values are real numbers; \<open>np_mul\<close> and \<open>np_div\<close> give
  the exact product and quotient, and \<open>rounded\<close> rounds a result to the nearest
  \<open>float64\<close>. The experimental overlay and \<open>time_to_freq64\<close> round every operation, as
  the program does; the axes and the marker positions are kept in exact arithmetic.
  Division by zero does not raise in numpy (it warns and returns a special value), so
  the special values are part of the model: \<open>Infty\<close> is an infinity (its sign is not
  tracked, and neither is the sign of zero) and \<open>NaN\<close> is not-a-number.
\<close>

datatype npfloat = Num real | Infty | NaN

fun np_mul :: "npfloat \<Rightarrow> npfloat \<Rightarrow> npfloat" where
  "np_mul NaN y = NaN"
| "np_mul x NaN = NaN"
| "np_mul (Num a) (Num b) = Num (a * b)"
| "np_mul (Num a) Infty = (if a = 0 then NaN else Infty)"
| "np_mul Infty (Num b) = (if b = 0 then NaN else Infty)"
| "np_mul Infty Infty = Infty"

fun np_div :: "npfloat \<Rightarrow> npfloat \<Rightarrow> npfloat" where
  "np_div NaN y = NaN"
| "np_div x NaN = NaN"
| "np_div (Num a) (Num b) = (if b = 0 then (if a = 0 then NaN else Infty) else Num (a / b))"
| "np_div (Num a) Infty = Num 0"
| "np_div Infty (Num b) = Infty"
| "np_div Infty Infty = NaN"

text \<open>
  The rounding of a real result to the nearest \<open>float64\<close>, ties to even (IEEE 754
  binary64: 53 significant bits, least normal exponent -1022, overflow from
  \<open>2^1024\<close>). \<open>binade k x e\<close> searches from \<open>e\<close>, in at most \<open>k\<close> steps, for the
  exponent with \<open>2^e \<le> x < 2^(e+1)\<close>.
\<close>

definition pow2 :: "int \<Rightarrow> real" where
  "pow2 e = (if 0 \<le> e then 2 ^ nat e else 1 / 2 ^ nat (- e))"

fun binade :: "nat \<Rightarrow> real \<Rightarrow> int \<Rightarrow> int" where
  "binade 0 x e = e"
| "binade (Suc k) x e =
     (if x < pow2 e then binade k x (e - 1)
      else if pow2 (e + 1) \<le> x then binade k x (e + 1)
      else e)"

definition round_half_even :: "real \<Rightarrow> int" where
  "round_half_even y =
     (let n = \<lfloor>y\<rfloor>; r = y - of_int n
      in if r < 1 / 2 then n else if 1 / 2 < r then n + 1 else if even n then n else n + 1)"

definition float64 :: "real \<Rightarrow> npfloat" where
  "float64 x =
     (if x = 0 then Num 0
      else let a = \<bar>x\<bar>;
               e = max (binade 2200 a 0) (- 1022);
               q = pow2 (e - 52);
               r = of_int (round_half_even (a / q)) * q
           in if pow2 1024 \<le> r then Infty else Num (if x < 0 then - r else r))"

definition rounded :: "npfloat \<Rightarrow> npfloat" where
  "rounded v = (case v of Num x \<Rightarrow> float64 x | Infty \<Rightarrow> Infty | NaN \<Rightarrow> NaN)"

text \<open>Python list indexing \<open>xs[i]\<close>: a negative index counts from the end.\<close>

definition py_getitem :: "'a list \<Rightarrow> int \<Rightarrow> py_error + 'a" where
  "py_getitem xs i =
     (if 0 \<le> i \<and> i < int (length xs) then Inr (xs ! nat i)
      else if i < 0 \<and> - int (length xs) \<le> i then Inr (xs ! nat (int (length xs) + i))
      else Inl IndexError)"

text \<open>The builtin \<open>min\<close> and \<open>np.max\<close> over a one-dimensional array of floats.\<close>

definition py_min :: "real list \<Rightarrow> py_error + real" where
  "py_min xs = (case xs of [] \<Rightarrow> Inl ValueError | x # rest \<Rightarrow> Inr (fold min rest x))"

definition np_max :: "real list \<Rightarrow> py_error + real" where
  "np_max xs = (case xs of [] \<Rightarrow> Inl ValueError | x # rest \<Rightarrow> Inr (fold max rest x))"

text \<open>
  \<open>np.max\<close> over an array that may hold special values. A \<open>nan\<close> makes the maximum
  \<open>nan\<close>. An infinity is taken as the largest value: the program applies this to the
  baseline-corrected signal only, whose entries are not negative.
\<close>

fun np_fmax :: "npfloat \<Rightarrow> npfloat \<Rightarrow> npfloat" where
  "np_fmax NaN y = NaN"
| "np_fmax x NaN = NaN"
| "np_fmax Infty y = Infty"
| "np_fmax x Infty = Infty"
| "np_fmax (Num a) (Num b) = Num (max a b)"

definition np_max_f :: "npfloat list \<Rightarrow> py_error + npfloat" where
  "np_max_f xs = (case xs of [] \<Rightarrow> Inl ValueError | x # rest \<Rightarrow> Inr (fold np_fmax rest x))"

text \<open>
  \<open>np.linspace(start, stop, num)\<close> with the default \<open>endpoint=True\<close>:
  \<open>step = (stop - start) / (num - 1)\<close>, the points are \<open>i * step + start\<close>, and the
  last point is overwritten with \<open>stop\<close>.
\<close>

definition linspace :: "real \<Rightarrow> real \<Rightarrow> nat \<Rightarrow> real list" where
  "linspace start stop num =
     (if num = 0 then []
      else if num = 1 then [start]
      else map (\<lambda>i. real i * ((stop - start) / real (num - 1)) + start) [0..<num - 1] @ [stop])"

text \<open>A statement that may raise, followed by the rest of the expression.\<close>

definition py_let :: "py_error + 'a \<Rightarrow> ('a \<Rightarrow> py_error + 'b) \<Rightarrow> py_error + 'b" where
  "py_let r f = (case r of Inl e \<Rightarrow> Inl e | Inr a \<Rightarrow> f a)"

text \<open>\<open>d[k]\<close> on a dictionary.\<close>

definition dict_get :: "('k \<rightharpoonup> 'v) \<Rightarrow> 'k \<Rightarrow> py_error + 'v" where
  "dict_get d k = (case d k of None \<Rightarrow> Inl KeyError | Some v \<Rightarrow> Inr v)"

text \<open>
  \<open>s.split(sep)\<close> scans from the left for non-overlapping occurrences of \<open>sep\<close>
  (\<open>cur\<close> holds the current piece, reversed); \<open>s.removeprefix(p)\<close>.
\<close>

fun str_split :: "string \<Rightarrow> string \<Rightarrow> string \<Rightarrow> string list" where
  "str_split sep cur [] = [rev cur]"
| "str_split sep cur (c # cs) =
     (if sep \<noteq> [] \<and> take (length sep) (c # cs) = sep
      then rev cur # str_split sep [] (drop (length sep) (c # cs))
      else str_split sep (c # cur) cs)"

definition removeprefix :: "string \<Rightarrow> string \<Rightarrow> string" where
  "removeprefix p s = (if take (length p) s = p then drop (length p) s else s)"

text \<open>
  A numpy array of floats with one or two dimensions, and the slice \<open>a[:, j]\<close>, which
  raises on a one-dimensional array and on a column that does not exist.
\<close>

datatype ndarray = Arr1 "real list" | Arr2 "real list list"

definition column :: "ndarray \<Rightarrow> nat \<Rightarrow> py_error + real list" where
  "column a j =
     (case a of
        Arr1 xs \<Rightarrow> Inl IndexError
      | Arr2 rows \<Rightarrow>
          if list_all (\<lambda>r. j < length r) rows then Inr (map (\<lambda>r. r ! j) rows)
          else Inl IndexError)"

section \<open>The dataset, the widgets and the application\<close>

record n15_row =
  n15_ms :: int
  n15_order :: int
  n15_field :: real
  n15_field_angle :: real
  n15_data :: "real list"

record c13_row =
  c13_ms :: int
  c13_order :: int
  c13_field :: real
  c13_fam :: string
  c13_data :: "real list"

text \<open>
  \<open>read_where\<close> with the conditions that \<open>update_plot_N\<close> and \<open>update_plot_C\<close> build:
  the rows of the table, in table order, that are equal to the selection in every
  queried column.
\<close>

definition read_where_N :: "n15_row list \<Rightarrow> int \<Rightarrow> real \<Rightarrow> real \<Rightarrow> int \<Rightarrow> n15_row list" where
  "read_where_N tbl M B0 theta ms =
     filter (\<lambda>r. n15_order r = M \<and> n15_field r = B0 \<and> n15_field_angle r = theta \<and> n15_ms r = ms) tbl"

definition read_where_C :: "c13_row list \<Rightarrow> int \<Rightarrow> string \<Rightarrow> real \<Rightarrow> int \<Rightarrow> c13_row list" where
  "read_where_C tbl M fam B0 ms =
     filter (\<lambda>r. c13_order r = M \<and> c13_fam r = fam \<and> c13_field r = B0 \<and> c13_ms r = ms) tbl"

text \<open>
  The local variable \<open>XY8\<close>: the record array that \<open>read_where\<close> returned, or the
  \<open>data\<close> series of its first row. \<open>np.max\<close> is defined on the series only.
\<close>

datatype 'r xy8 = Records "'r list" | Series "real list"

definition np_max_xy8 :: "'r xy8 \<Rightarrow> py_error + real" where
  "np_max_xy8 v = (case v of Records rs \<Rightarrow> Inl TypeError | Series ys \<Rightarrow> np_max ys)"

text \<open>
  What the calls on \<open>self.ax\<close> add to the axes: \<open>plot(x, y, label)\<close>, \<open>text\<close> with its
  string, \<open>scatter(x, y, label)\<close> and \<open>axvline(x, label, color)\<close>. The \<open>data\<close> column of
  both tables has the 1000 points of the time axis in every row, so that \<open>plot\<close> never
  rejects a curve for its length; that check is not modelled.
\<close>

datatype artist =
    Plot "npfloat list" "real list" string
  | Text string
  | Scatter "real list" "npfloat list" string
  | Axvline npfloat string string

text \<open>
  The values that one tab's widgets hold when its update button is pressed (the
  combo-box texts already converted by \<open>int\<close> and \<open>float\<close>; \<open>radio2\<close> is the
  frequency button; \<open>unit_btngrp\<close> is \<open>checkedId()\<close>). The N15 tab has no family
  list and the C13 tab has no angle.
\<close>

record tab =
  ms_widget :: int
  M_widget :: int
  B0_widget :: real
  theta_widget :: real
  families_widget :: "string list"
  gyromagnetic_widget :: "string list"
  unit_btngrp :: int
  radio2 :: bool
  expt_chkbox :: bool
  expt_filename :: string

text \<open>
  The attributes of the window that the modelled methods read or write. \<open>ax\<close> is the
  content of the axes, \<open>canvas\<close> what the last \<open>canvas.draw()\<close> has shown, and
  \<open>messages\<close> the titles of the message boxes that were executed.
\<close>

record app =
  N15_table :: "n15_row list"
  C13_table :: "c13_row list"
  tau :: "real list"
  freq :: "npfloat list"
  gyromagnetic_ratios :: "string \<rightharpoonup> real"
  ax :: "artist list"
  xlabel :: string
  messages :: "string list"
  canvas :: "artist list"
  plot_ready :: bool

text \<open>
  What lies outside the program: \<open>loadtxt\<close> is the outcome of
  \<open>np.loadtxt\<close> with a tab delimiter for each path (the array, or the exception of a
  file that cannot be read or parsed), and \<open>colors\<close> is matplotlib's colour cycle.
\<close>

record env =
  loadtxt :: "string \<Rightarrow> py_error + ndarray"
  colors :: "string list"

text \<open>
  A method body runs on the window and either completes or raises; the window keeps
  what was written before the exception.
\<close>

type_synonym 'a run = "app \<Rightarrow> app \<times> (py_error + 'a)"

definition py_bind :: "'a run \<Rightarrow> ('a \<Rightarrow> 'b run) \<Rightarrow> 'b run" where
  "py_bind m f s = (case m s of (s', Inl e) \<Rightarrow> (s', Inl e) | (s', Inr a) \<Rightarrow> f a s')"

definition ax_add :: "py_error + artist \<Rightarrow> unit run" where
  "ax_add r s = (case r of Inl e \<Rightarrow> (s, Inl e) | Inr a \<Rightarrow> (s\<lparr>ax := ax s @ [a]\<rparr>, Inr ()))"

definition ax_clear :: "unit run" where
  "ax_clear s = (s\<lparr>ax := [], xlabel := []\<rparr>, Inr ())"

section \<open>Domain conversion\<close>

text \<open>
  The expression \<open>1 / 2 / x\<close> of \<open>load_data\<close> (\<open>self.freq = 1 / 2 / self.tau\<close>) and of
  the marker loops (\<open>pos = 1 / 2 / pos\<close>): \<open>1 / 2\<close> is the Python float \<open>0.5\<close>, which
  is then divided by a numpy value.
\<close>

definition time_to_freq :: "npfloat \<Rightarrow> npfloat" where
  "time_to_freq x = np_div (np_div (Num 1) (Num 2)) x"

text \<open>The same expression with each of its two divisions rounded to a \<open>float64\<close>.\<close>

definition time_to_freq64 :: "npfloat \<Rightarrow> npfloat" where
  "time_to_freq64 x = rounded (np_div (rounded (np_div (Num 1) (Num 2))) x)"

section \<open>Loading the data\<close>

text \<open>
  The tables of the HDF5 file that \<open>load_data\<close> reads: the two simulation tables and
  the \<open>substance\<close> and \<open>value\<close> columns of the table of gyromagnetic ratios.
\<close>

record dataset =
  n15_table :: "n15_row list"
  c13_table :: "c13_row list"
  gyro_table :: "(string \<times> real) list"

text \<open>
  \<open>gyromagnetic_ratios_raw\<close> is the dictionary of the zipped columns; each of its
  items \<open>k, v\<close> is stored again under \<open>f"<sup>{k.split("-")[1]}</sup>{k.split("-")[0]}"\<close>.
\<close>

fun gyro_entries :: "(string \<times> real) list \<Rightarrow> (string \<rightharpoonup> real) \<Rightarrow> py_error + (string \<rightharpoonup> real)" where
  "gyro_entries [] d = Inr d"
| "gyro_entries ((k, v) # kvs) d =
     (let temp_part = str_split ''-'' [] k in
      py_let (py_getitem temp_part 1) (\<lambda>t1.
      py_let (py_getitem temp_part 0) (\<lambda>t0.
      gyro_entries kvs (d(''<sup>'' @ t1 @ ''</sup>'' @ t0 \<mapsto> v)))))"

definition gyromagnetic_ratios_raw :: "(string \<times> real) list \<Rightarrow> (string \<times> real) list" where
  "gyromagnetic_ratios_raw kvs = fold (\<lambda>(k, v). AList.update k v) kvs []"

definition load_data :: "dataset \<Rightarrow> app \<Rightarrow> py_error + app" where
  "load_data ds self =
     (let tau' = linspace (5 / 100) 3 1000;
          freq' = map (\<lambda>t. time_to_freq (Num t)) tau' in
      py_let (gyro_entries (gyromagnetic_ratios_raw (gyro_table ds)) Map.empty) (\<lambda>g.
      Inr (self\<lparr>N15_table := n15_table ds, C13_table := c13_table ds,
                 tau := tau', freq := freq', gyromagnetic_ratios := g\<rparr>)))"

section \<open>Updating the plot\<close>

definition unit_list :: "real list" where
  "unit_list = [1000, 1, 1 / 1000, 1 / 1000000]"

definition unit_label_t :: "string list" where
  "unit_label_t = [''tau (ns)'', ''tau (us)'', ''tau (ms)'', ''tau (s)'']"

definition unit_label_f :: "string list" where
  "unit_label_f = [''f (GHz)'', ''f (MHz)'', ''f (kHz)'', ''f (Hz)'']"

definition no_data_text :: string where
  "no_data_text = ''Simulation results are not available yet for these values''"

text \<open>
  The x axis of a simulated curve: \<open>self.freq / unit_list[selected_unit_id]\<close> when the
  frequency button is checked, \<open>self.tau * unit_list[selected_unit_id]\<close> otherwise.
\<close>

definition x_axis :: "tab \<Rightarrow> app \<Rightarrow> py_error + npfloat list" where
  "x_axis w s =
     (if radio2 w
      then py_let (py_getitem unit_list (unit_btngrp w)) (\<lambda>u. Inr (map (\<lambda>f. np_div f (Num u)) (freq s)))
      else py_let (py_getitem unit_list (unit_btngrp w)) (\<lambda>u. Inr (map (\<lambda>t. np_mul (Num t) (Num u)) (tau s))))"

subsection \<open>The simulated curves\<close>

text \<open>
  \<open>update_plot_N\<close>: one query; a text box when no row matches, the first row's series
  otherwise. The value is what the local variable \<open>XY8\<close> holds afterwards.
\<close>

definition curve_N :: "tab \<Rightarrow> (n15_row xy8) run" where
  "curve_N w s =
     (case read_where_N (N15_table s) (M_widget w) (B0_widget w) (theta_widget w) (ms_widget w) of
        [] \<Rightarrow> (s\<lparr>ax := ax s @ [Text no_data_text]\<rparr>, Inr (Records []))
      | r # rs \<Rightarrow>
          (case x_axis w s of
             Inl e \<Rightarrow> (s, Inl e)
           | Inr xs \<Rightarrow> (s\<lparr>ax := ax s @ [Plot xs (n15_data r) ''Sim'']\<rparr>, Inr (Series (n15_data r)))))"

text \<open>
  \<open>update_plot_C\<close>: the loop over the selected families. \<open>XY8\<close> is assigned in every
  iteration and is unbound (\<open>None\<close>) before the first one.
\<close>

fun curves_C :: "tab \<Rightarrow> string list \<Rightarrow> (c13_row xy8) option \<Rightarrow> ((c13_row xy8) option) run" where
  "curves_C w [] XY8 s = (s, Inr XY8)"
| "curves_C w (fam # fams) XY8 s =
     (case read_where_C (C13_table s) (M_widget w) fam (B0_widget w) (ms_widget w) of
        [] \<Rightarrow> curves_C w fams (Some (Records [])) (s\<lparr>ax := ax s @ [Text no_data_text]\<rparr>)
      | r # rs \<Rightarrow>
          (case x_axis w s of
             Inl e \<Rightarrow> (s, Inl e)
           | Inr xs \<Rightarrow>
               curves_C w fams (Some (Series (c13_data r)))
                 (s\<lparr>ax := ax s @ [Plot xs (c13_data r) fam]\<rparr>)))"

subsection \<open>The experimental overlay\<close>

text \<open>
  \<open>p = exp_data[:, 1] - min(exp_data[:, 1])\<close> and the scatter of \<open>exp_data[:, 0]\<close>
  against \<open>p * np.max(XY8) / np.max(p)\<close>, in the order in which Python evaluates them.
  The subtraction, the product and the quotient are \<open>float64\<close> operations on arrays and
  are rounded element by element. The values of the file are finite numbers.
\<close>

definition overlay_N :: "env \<Rightarrow> tab \<Rightarrow> n15_row xy8 \<Rightarrow> unit run" where
  "overlay_N e w XY8 =
     (if expt_chkbox w \<and> expt_filename w \<noteq> []
      then ax_add
        (py_let (loadtxt e (expt_filename w)) (\<lambda>exp_data.
         py_let (column exp_data 1) (\<lambda>y.
         py_let (py_min y) (\<lambda>m.
         let p = map (\<lambda>v. rounded (Num (v - m))) y in
         py_let (column exp_data 0) (\<lambda>x.
         py_let (np_max_xy8 XY8) (\<lambda>peak.
         py_let (np_max_f p) (\<lambda>maxp.
         Inr (Scatter x (map (\<lambda>v. rounded (np_div (rounded (np_mul v (Num peak))) maxp)) p)
                ''Exp''))))))))
      else (\<lambda>s. (s, Inr ())))"

definition overlay_C :: "env \<Rightarrow> tab \<Rightarrow> (c13_row xy8) option \<Rightarrow> unit run" where
  "overlay_C e w XY8 =
     (if expt_chkbox w \<and> expt_filename w \<noteq> []
      then ax_add
        (py_let (loadtxt e (expt_filename w)) (\<lambda>exp_data.
         py_let (column exp_data 1) (\<lambda>y.
         py_let (py_min y) (\<lambda>m.
         let p = map (\<lambda>v. rounded (Num (v - m))) y in
         py_let (column exp_data 0) (\<lambda>x.
         py_let (case XY8 of None \<Rightarrow> Inl UnboundLocalError | Some v \<Rightarrow> np_max_xy8 v) (\<lambda>peak.
         py_let (np_max_f p) (\<lambda>maxp.
         Inr (Scatter x (map (\<lambda>v. rounded (np_div (rounded (np_mul v (Num peak))) maxp)) p)
                ''Exp''))))))))
      else (\<lambda>s. (s, Inr ())))"

subsection \<open>The markers\<close>

definition gyro_key_map :: "string \<Rightarrow> string list" where
  "gyro_key_map key = str_split ''</sup>'' [] (removeprefix ''<sup>'' key)"

text \<open>
  One iteration of the loop over \<open>enumerate(selected_gyromagnetic)\<close> in
  \<open>update_plot_N\<close>: the position and the vertical line.
\<close>

definition marker_N :: "string list \<Rightarrow> tab \<Rightarrow> (string \<rightharpoonup> real) \<Rightarrow> nat \<Rightarrow> string \<Rightarrow> py_error + artist" where
  "marker_N cs w gyro idx val =
     py_let (dict_get gyro val) (\<lambda>g.
     py_let (py_getitem unit_list (unit_btngrp w)) (\<lambda>u.
     let pos = np_div (Num 1)
                 (np_mul (np_mul (np_div (np_mul (Num 2) (Num g)) (Num u)) (Num (B0_widget w)))
                    (Num (1 / 1000)));
         pos = (if radio2 w then time_to_freq pos else pos);
         gyro_label = gyro_key_map val in
     py_let (py_getitem gyro_label 0) (\<lambda>l0.
     py_let (py_getitem gyro_label 1) (\<lambda>l1.
     py_let (py_getitem cs (int idx + 1)) (\<lambda>c.
     Inr (Axvline pos (''$^{'' @ l0 @ ''}$'' @ l1) c))))))"

fun marker_loop_N :: "string list \<Rightarrow> tab \<Rightarrow> nat \<Rightarrow> string list \<Rightarrow> unit run" where
  "marker_loop_N cs w idx [] s = (s, Inr ())"
| "marker_loop_N cs w idx (val # vals) s =
     (case marker_N cs w (gyromagnetic_ratios s) idx val of
        Inl e \<Rightarrow> (s, Inl e)
      | Inr a \<Rightarrow> marker_loop_N cs w (Suc idx) vals (s\<lparr>ax := ax s @ [a]\<rparr>))"

definition markers_N :: "string list \<Rightarrow> tab \<Rightarrow> unit run" where
  "markers_N cs w s =
     (if B0_widget w \<noteq> 0 then marker_loop_N cs w 0 (gyromagnetic_widget w) s
      else if B0_widget w = 0 \<and> length (gyromagnetic_widget w) \<noteq> 0
      then (s\<lparr>messages := messages s @ [''Cannot divide by zero'']\<rparr>, Inr ())
      else (s, Inr ()))"

text \<open>The same block of \<open>update_plot_C\<close>.\<close>

definition marker_C :: "string list \<Rightarrow> tab \<Rightarrow> (string \<rightharpoonup> real) \<Rightarrow> nat \<Rightarrow> string \<Rightarrow> py_error + artist" where
  "marker_C cs w gyro idx val =
     py_let (dict_get gyro val) (\<lambda>g.
     py_let (py_getitem unit_list (unit_btngrp w)) (\<lambda>u.
     let pos = np_div (Num 1)
                 (np_mul (np_mul (np_div (np_mul (Num 2) (Num g)) (Num u)) (Num (B0_widget w)))
                    (Num (1 / 1000)));
         pos = (if radio2 w then time_to_freq pos else pos);
         gyro_label = gyro_key_map val in
     py_let (py_getitem gyro_label 0) (\<lambda>l0.
     py_let (py_getitem gyro_label 1) (\<lambda>l1.
     py_let (py_getitem cs (int idx + 1)) (\<lambda>c.
     Inr (Axvline pos (''$^{'' @ l0 @ ''}$'' @ l1) c))))))"

fun marker_loop_C :: "string list \<Rightarrow> tab \<Rightarrow> nat \<Rightarrow> string list \<Rightarrow> unit run" where
  "marker_loop_C cs w idx [] s = (s, Inr ())"
| "marker_loop_C cs w idx (val # vals) s =
     (case marker_C cs w (gyromagnetic_ratios s) idx val of
        Inl e \<Rightarrow> (s, Inl e)
      | Inr a \<Rightarrow> marker_loop_C cs w (Suc idx) vals (s\<lparr>ax := ax s @ [a]\<rparr>))"

definition markers_C :: "string list \<Rightarrow> tab \<Rightarrow> unit run" where
  "markers_C cs w s =
     (if B0_widget w \<noteq> 0 then marker_loop_C cs w 0 (gyromagnetic_widget w) s
      else if B0_widget w = 0 \<and> length (gyromagnetic_widget w) \<noteq> 0
      then (s\<lparr>messages := messages s @ [''Cannot divide by zero'']\<rparr>, Inr ())
      else (s, Inr ()))"

subsection \<open>The two methods\<close>

text \<open>
  The end of both methods: the axis label, the reference text, and
  \<open>canvas.draw()\<close> followed by \<open>plot_ready = True\<close>. The axis labels are written
  without their TeX markup; the title, the legend and the layout carry no data and
  are left out.
\<close>

definition finish :: "tab \<Rightarrow> unit run" where
  "finish w s =
     (case (if radio2 w then py_getitem unit_label_f (unit_btngrp w)
            else py_getitem unit_label_t (unit_btngrp w)) of
        Inl e \<Rightarrow> (s, Inl e)
      | Inr l \<Rightarrow>
          (let s1 = s\<lparr>xlabel := l, ax := ax s @ [Text ''arXiv:2407.09411 [quant-ph]'']\<rparr>
           in (s1\<lparr>canvas := ax s1, plot_ready := True\<rparr>, Inr ())))"

definition update_plot_N :: "env \<Rightarrow> tab \<Rightarrow> unit run" where
  "update_plot_N e w =
     py_bind ax_clear (\<lambda>_.
     py_bind (curve_N w) (\<lambda>XY8.
     py_bind (overlay_N e w XY8) (\<lambda>_.
     py_bind (markers_N (colors e) w) (\<lambda>_.
     finish w))))"

definition update_plot_C :: "env \<Rightarrow> tab \<Rightarrow> unit run" where
  "update_plot_C e w =
     py_bind ax_clear (\<lambda>_.
     py_bind (curves_C w (families_widget w) None) (\<lambda>XY8.
     py_bind (overlay_C e w XY8) (\<lambda>_.
     py_bind (markers_C (colors e) w) (\<lambda>_.
     finish w))))"

text \<open>
  The statements of the two methods that come before their marker blocks: the axes are
  cleared, the curves are drawn and the overlay is added.
\<close>

definition curves_and_overlay_N :: "env \<Rightarrow> tab \<Rightarrow> unit run" where
  "curves_and_overlay_N e w =
     py_bind ax_clear (\<lambda>_.
     py_bind (curve_N w) (\<lambda>XY8.
     overlay_N e w XY8))"

definition curves_and_overlay_C :: "env \<Rightarrow> tab \<Rightarrow> unit run" where
  "curves_and_overlay_C e w =
     py_bind ax_clear (\<lambda>_.
     py_bind (curves_C w (families_widget w) None) (\<lambda>XY8.
     overlay_C e w XY8))"

section \<open>Observations and example data\<close>

text \<open>The positions of the vertical lines on the axes, in drawing order.\<close>

fun marker_xs :: "artist list \<Rightarrow> npfloat list" where
  "marker_xs [] = []"
| "marker_xs (Axvline x l c # as) = x # marker_xs as"
| "marker_xs (a # as) = marker_xs as"

text \<open>The label and the series of each simulated curve on the axes, in drawing order.\<close>

fun plotted :: "artist list \<Rightarrow> (string \<times> real list) list" where
  "plotted [] = []"
| "plotted (Plot x y l # as) = (l, y) # plotted as"
| "plotted (a # as) = plotted as"

text \<open>The finite value of a rounding (0 when the rounding overflows).\<close>

definition fl64 :: "real \<Rightarrow> real" where
  "fl64 x = (case float64 x of Num r \<Rightarrow> r | Infty \<Rightarrow> 0 | NaN \<Rightarrow> 0)"

text \<open>
  \<open>__init__\<close>, as far as the modelled attributes go: \<open>load_data\<close> on a window with
  empty axes, then \<open>plot_ready = False\<close>.
\<close>

definition init :: "dataset \<Rightarrow> py_error + app" where
  "init ds =
     py_let (load_data ds \<lparr>N15_table = [], C13_table = [], tau = [], freq = [],
               gyromagnetic_ratios = Map.empty, ax = [], xlabel = [], messages = [],
               canvas = [], plot_ready = False\<rparr>)
       (\<lambda>self. Inr (self\<lparr>plot_ready := False\<rparr>))"

text \<open>
  A small dataset: one N15 row, three C13 rows (families A and B at order 8, family A
  alone at order 16) and two gyromagnetic ratios; the window that \<open>init\<close> builds from
  it; a selection of the widgets; and two experimental files.
\<close>

definition demo_dataset :: dataset where
  "demo_dataset =
     \<lparr>n15_table =
        [\<lparr>n15_ms = - 1, n15_order = 8, n15_field = 5, n15_field_angle = 0,
          n15_data = replicate 1000 (1 / 2)\<rparr>],
      c13_table =
        [\<lparr>c13_ms = - 1, c13_order = 8, c13_field = 5, c13_fam = ''A'',
          c13_data = replicate 1000 1\<rparr>,
         \<lparr>c13_ms = - 1, c13_order = 8, c13_field = 5, c13_fam = ''B'',
          c13_data = replicate 1000 (1 / 2)\<rparr>,
         \<lparr>c13_ms = - 1, c13_order = 16, c13_field = 5, c13_fam = ''A'',
          c13_data = replicate 1000 (1 / 4)\<rparr>],
      gyro_table = [(''H-1'', 42577 / 1000), (''C-13'', 10708 / 1000)]\<rparr>"

definition demo_app :: app where
  "demo_app =
     \<lparr>N15_table = n15_table demo_dataset, C13_table = c13_table demo_dataset,
      tau = linspace (5 / 100) 3 1000,
      freq = map (\<lambda>t. time_to_freq (Num t)) (linspace (5 / 100) 3 1000),
      gyromagnetic_ratios = [''<sup>1</sup>H'' \<mapsto> 42577 / 1000, ''<sup>13</sup>C'' \<mapsto> 10708 / 1000],
      ax = [], xlabel = [], messages = [], canvas = [], plot_ready = False\<rparr>"

definition demo_tab :: tab where
  "demo_tab =
     \<lparr>ms_widget = - 1, M_widget = 8, B0_widget = 5, theta_widget = 0,
      families_widget = [''A'', ''B''], gyromagnetic_widget = [''<sup>1</sup>H''],
      unit_btngrp = 1, radio2 = False, expt_chkbox = False, expt_filename = []\<rparr>"

definition demo_env :: env where
  "demo_env =
     \<lparr>loadtxt = (\<lambda>path. if path = ''exp.txt'' then Inr (Arr2 [[0, 0], [1, 1]])
                        else if path = ''flat.txt'' then Inr (Arr2 [[0, 1], [1, 1]])
                        else Inl ValueError),
      colors = [''C0'', ''C1'', ''C2'', ''C3'', ''C4'', ''C5'', ''C6'', ''C7'', ''C8'', ''C9'']\<rparr>"

section \<open>Properties\<close>

subsection \<open>Rounding to \<open>float64\<close>\<close>

text \<open>
  The exponent search is right for every positive number up to \<open>2^1023\<close>, the rounding of
  such a number is finite and not negative, rounding is monotone, and in the normal range
  it changes a number by at most \<open>2^-53\<close> of it.
\<close>

lemma pow2_powi: "pow2 e = 2 powi e"
  by (simp add: pow2_def power_int_def inverse_eq_divide power_one_over)

lemma pow2_pos: "0 < pow2 e"
  by (simp add: pow2_powi)

lemma pow2_add: "pow2 (a + b) = pow2 a * pow2 b"
  by (simp add: pow2_powi power_int_add)

lemma pow2_Suc: "pow2 (e + 1) = 2 * pow2 e"
  by (simp add: pow2_powi power_int_add)

lemma pow2_mono: "a \<le> b \<Longrightarrow> pow2 a \<le> pow2 b"
  by (simp add: pow2_powi power_int_increasing)

lemma pow2_strict_mono: "a < b \<Longrightarrow> pow2 a < pow2 b"
proof -
  assume "a < b"
  then have "a + 1 \<le> b" by simp
  then have "pow2 (a + 1) \<le> pow2 b" by (rule pow2_mono)
  then have "2 * pow2 a \<le> pow2 b" by (simp add: pow2_Suc)
  with pow2_pos [of a] show ?thesis by linarith
qed

lemma pow2_less_iff: "pow2 a < pow2 b \<longleftrightarrow> a < b"
  using pow2_strict_mono [of a b] pow2_mono [of b a] by (auto simp add: not_le [symmetric])

lemma binade_up:
  "pow2 e \<le> a \<Longrightarrow> a < pow2 (e + int k)
     \<Longrightarrow> pow2 (binade k a e) \<le> a \<and> a < pow2 (binade k a e + 1)"
proof (induction k arbitrary: e)
  case 0
  then show ?case by simp
next
  case (Suc k)
  show ?case
  proof (cases "pow2 (e + 1) \<le> a")
    case True
    have "e + int (Suc k) = e + 1 + int k" by simp
    with Suc.prems(2) have "a < pow2 (e + 1 + int k)" by (simp only:)
    from Suc.IH [OF True this] True Suc.prems(1) show ?thesis by simp
  next
    case False
    with Suc.prems(1) show ?thesis by simp
  qed
qed

lemma binade_down:
  "a < pow2 (e + 1) \<Longrightarrow> pow2 (e - int k) \<le> a
     \<Longrightarrow> pow2 (binade k a e) \<le> a \<and> a < pow2 (binade k a e + 1)"
proof (induction k arbitrary: e)
  case 0
  then show ?case by simp
next
  case (Suc k)
  show ?case
  proof (cases "a < pow2 e")
    case True
    have 1: "a < pow2 (e - 1 + 1)" using True by simp
    have "e - int (Suc k) = e - 1 - int k" by simp
    with Suc.prems(2) have 2: "pow2 (e - 1 - int k) \<le> a" by (simp only:)
    from Suc.IH [OF 1 2] True show ?thesis by simp
  next
    case False
    with Suc.prems(1) show ?thesis by simp
  qed
qed

lemma binade_weak:
  "a < pow2 (e + 1) \<Longrightarrow> a < pow2 (binade k a e + 1)"
proof (induction k arbitrary: e)
  case 0
  then show ?case by simp
next
  case (Suc k)
  show ?case
  proof (cases "a < pow2 e")
    case True
    then have "a < pow2 (e - 1 + 1)" by simp
    from Suc.IH [OF this] True show ?thesis by simp
  next
    case False
    with Suc.prems show ?thesis by simp
  qed
qed

lemma binade_small: "a < pow2 (e - int k) \<Longrightarrow> binade k a e = e - int k"
proof (induction k arbitrary: e)
  case 0
  then show ?case by simp
next
  case (Suc k)
  have eq: "e - int (Suc k) = e - 1 - int k" by simp
  have "pow2 (e - int (Suc k)) \<le> pow2 e" by (rule pow2_mono) simp
  with Suc.prems have lt: "a < pow2 e" by linarith
  from Suc.prems have "a < pow2 (e - 1 - int k)" by (simp only: eq)
  from Suc.IH [OF this] lt show ?case by simp
qed

lemma exponent_char:
  assumes "0 < x" and "x \<le> pow2 1023"
  defines "E \<equiv> max (binade 2200 x 0) (- 1022)"
  shows "- 1022 \<le> E" and "E \<le> 1023" and "x < pow2 (E + 1)"
    and "- 1022 < E \<Longrightarrow> pow2 E \<le> x" and "pow2 (- 1022) \<le> x \<Longrightarrow> pow2 E \<le> x"
proof -
  let ?b = "binade 2200 x 0"
  have p0: "pow2 0 = 1" by (simp add: pow2_def)
  have lo: "- 1022 \<le> E" by (simp add: E_def)
  have core: "x < pow2 (?b + 1) \<and> (pow2 ?b \<le> x \<or> ?b < - 1022)"
  proof (cases "1 \<le> x")
    case True
    have "pow2 1023 < pow2 (0 + int 2200)" by (rule pow2_strict_mono) simp
    with assms(2) have "x < pow2 (0 + int 2200)" by linarith
    from binade_up [of 0 x 2200, OF _ this] True show ?thesis by (simp add: p0)
  next
    case False
    have "pow2 0 \<le> pow2 (0 + 1)" by (rule pow2_mono) simp
    with False have w: "x < pow2 (0 + 1)" by (simp add: p0)
    show ?thesis
    proof (cases "pow2 (0 - int 2200) \<le> x")
      case True
      from binade_down [OF w True] show ?thesis by simp
    next
      case False
      then have "x < pow2 (0 - int 2200)" by simp
      from binade_small [OF this] binade_weak [OF w, of 2200] show ?thesis by simp
    qed
  qed
  show up: "x < pow2 (E + 1)"
  proof -
    have "pow2 (?b + 1) \<le> pow2 (E + 1)" by (rule pow2_mono) (simp add: E_def)
    with core show ?thesis by linarith
  qed
  show ge: "pow2 E \<le> x" if "- 1022 < E"
  proof -
    from that have "E = ?b" and "\<not> ?b < - 1022" by (simp_all add: E_def max_def split: if_splits)
    with core show ?thesis by simp
  qed
  show "pow2 E \<le> x" if "pow2 (- 1022) \<le> x"
  proof (cases "- 1022 < E")
    case True
    then show ?thesis by (rule ge)
  next
    case False
    with lo have "E = - 1022" by simp
    with that show ?thesis by simp
  qed
  show "E \<le> 1023"
  proof (rule ccontr)
    assume "\<not> E \<le> 1023"
    then have big: "1023 < E" by simp
    then have "pow2 E \<le> x" by (intro ge) simp
    moreover have "pow2 1023 < pow2 E" using big by (rule pow2_strict_mono)
    ultimately show False using assms(2) by linarith
  qed
  show "- 1022 \<le> E" by (rule lo)
qed

lemma rhe_err: "\<bar>of_int (round_half_even y) - y\<bar> \<le> 1 / 2"
proof -
  have "of_int \<lfloor>y\<rfloor> \<le> y" "y < of_int \<lfloor>y\<rfloor> + 1" by linarith+
  then show ?thesis
    by (auto simp add: round_half_even_def Let_def)
qed

lemma rhe_of_int: "round_half_even (of_int n) = n"
  by (simp add: round_half_even_def Let_def)

lemma rhe_bounds:
  "\<lfloor>y\<rfloor> \<le> round_half_even y" "round_half_even y \<le> \<lfloor>y\<rfloor> + 1"
  by (simp_all add: round_half_even_def Let_def)

lemma rhe_mono: "a \<le> b \<Longrightarrow> round_half_even a \<le> round_half_even b"
proof -
  assume ab: "a \<le> b"
  then have fl: "\<lfloor>a\<rfloor> \<le> \<lfloor>b\<rfloor>" by (rule floor_mono)
  show ?thesis
  proof (cases "\<lfloor>a\<rfloor> = \<lfloor>b\<rfloor>")
    case True
    with ab show ?thesis by (auto simp add: round_half_even_def Let_def)
  next
    case False
    with fl have "\<lfloor>a\<rfloor> + 1 \<le> \<lfloor>b\<rfloor>" by simp
    with rhe_bounds(2) [of a] rhe_bounds(1) [of b] show ?thesis by linarith
  qed
qed

lemma pow2_nonneg_int: "0 \<le> e \<Longrightarrow> pow2 e = of_int (2 ^ nat e)"
  by (simp add: pow2_def)

lemma pow2_diff: "pow2 (a - b) = pow2 a / pow2 b"
proof -
  have "pow2 (a - b) * pow2 b = pow2 a" by (simp add: pow2_add [symmetric])
  then show ?thesis using pow2_pos [of b] by (simp add: field_simps)
qed

lemma float64_pos:
  assumes "0 < x" and "x \<le> pow2 1023"
  defines "q \<equiv> pow2 (max (binade 2200 x 0) (- 1022) - 52)"
  shows "float64 x = Num (of_int (round_half_even (x / q)) * q)"
    and "of_int (round_half_even (x / q)) * q \<le> pow2 1023"
    and "0 \<le> of_int (round_half_even (x / q)) * q"
proof -
  let ?E = "max (binade 2200 x 0) (- 1022)"
  note E = exponent_char [OF assms(1,2)]
  have q: "0 < q" by (simp add: q_def pow2_pos)
  have "x / q \<le> pow2 1023 / q" using assms(2) q by (simp add: divide_right_mono)
  also have "pow2 1023 / q = pow2 (1075 - ?E)"
    unfolding q_def pow2_diff [symmetric] by (simp add: algebra_simps)
  also have "\<dots> = of_int (2 ^ nat (1075 - ?E))"
    using E(2) by (intro pow2_nonneg_int) simp
  finally have "round_half_even (x / q) \<le> round_half_even (of_int (2 ^ nat (1075 - ?E)))"
    by (rule rhe_mono)
  then have "round_half_even (x / q) \<le> 2 ^ nat (1075 - ?E)"
    by (simp only: rhe_of_int)
  then have "of_int (round_half_even (x / q)) \<le> (of_int (2 ^ nat (1075 - ?E)) :: real)"
    by (simp only: of_int_le_iff)
  also have "(of_int (2 ^ nat (1075 - ?E)) :: real) = pow2 (1075 - ?E)"
    using E(2) by (intro pow2_nonneg_int [symmetric]) simp
  finally have "of_int (round_half_even (x / q)) * q \<le> pow2 (1075 - ?E) * q"
    using q by (simp add: mult_right_mono)
  also have "pow2 (1075 - ?E) * q = pow2 1023"
    unfolding q_def pow2_add [symmetric] by (simp add: algebra_simps)
  finally show le: "of_int (round_half_even (x / q)) * q \<le> pow2 1023" .
  have "pow2 1023 < pow2 1024" by (rule pow2_strict_mono) simp
  with le have no: "\<not> pow2 1024 \<le> of_int (round_half_even (x / q)) * q" by linarith
  have "0 \<le> x / q" using assms(1) q by simp
  then have "round_half_even 0 \<le> round_half_even (x / q)" by (rule rhe_mono)
  then have "0 \<le> round_half_even (x / q)" using rhe_of_int [of 0] by simp
  then show "0 \<le> of_int (round_half_even (x / q)) * q" using q by simp
  show "float64 x = Num (of_int (round_half_even (x / q)) * q)"
    using assms(1) no by (simp add: float64_def Let_def q_def)
qed

lemma fl64_zero: "float64 0 = Num 0" "fl64 0 = 0"
  by (simp_all add: float64_def fl64_def)

lemma fl64_Num: "0 \<le> x \<Longrightarrow> x \<le> pow2 1023 \<Longrightarrow> float64 x = Num (fl64 x)"
  using float64_pos(1) [of x] by (cases "x = 0") (simp_all add: fl64_def fl64_zero)

lemma fl64_range: "0 \<le> x \<Longrightarrow> x \<le> pow2 1023 \<Longrightarrow> 0 \<le> fl64 x \<and> fl64 x \<le> pow2 1023"
  using float64_pos [of x] pow2_pos [of 1023]
  by (cases "x = 0") (simp_all add: fl64_def fl64_zero less_imp_le)

lemma abs_scaled:
  fixes n x q :: real
  assumes "0 < q"
  shows "\<bar>n * q - x\<bar> = \<bar>n - x / q\<bar> * q"
proof -
  have "n * q - x = (n - x / q) * q" using assms by (simp add: field_simps)
  then show ?thesis using assms by (simp add: abs_mult)
qed

lemma fl64_err:
  assumes "pow2 (- 1022) \<le> x" and "x \<le> pow2 1023"
  shows "\<bar>fl64 x - x\<bar> \<le> x / 2 ^ 53"
proof -
  let ?E = "max (binade 2200 x 0) (- 1022)"
  let ?q = "pow2 (?E - 52)"
  from assms(1) pow2_pos [of "- 1022"] have pos: "0 < x" by linarith
  note E = exponent_char [OF pos assms(2)]
  have q: "0 < ?q" by (rule pow2_pos)
  have r: "fl64 x = of_int (round_half_even (x / ?q)) * ?q"
    using float64_pos(1) [OF pos assms(2)] by (simp add: fl64_def)
  have "\<bar>fl64 x - x\<bar> = \<bar>of_int (round_half_even (x / ?q)) - x / ?q\<bar> * ?q"
    unfolding r by (rule abs_scaled [OF q])
  also have "\<dots> \<le> 1 / 2 * ?q"
    using rhe_err [of "x / ?q"] q by (intro mult_right_mono) simp_all
  also have "1 / 2 * ?q = pow2 ?E / 2 ^ 53"
  proof -
    have "pow2 (?E - 52) = pow2 ?E / pow2 52" by (rule pow2_diff)
    then show ?thesis by (simp add: pow2_def)
  qed
  also have "\<dots> \<le> x / 2 ^ 53"
    using E(5) [OF assms(1)] by (simp add: divide_right_mono)
  finally show ?thesis .
qed

lemma fl64_mono:
  assumes "0 \<le> x" and "x \<le> y" and "y \<le> pow2 1023"
  shows "fl64 x \<le> fl64 y"
proof (cases "x = 0")
  case True
  with fl64_range [of y] assms show ?thesis by (simp add: fl64_zero)
next
  case False
  with assms have px: "0 < x" and py: "0 < y" and xb: "x \<le> pow2 1023" by simp_all
  define Ex where "Ex = max (binade 2200 x 0) (- 1022)"
  define Ey where "Ey = max (binade 2200 y 0) (- 1022)"
  note Ex = exponent_char [OF px xb, folded Ex_def]
    and Ey = exponent_char [OF py assms(3), folded Ey_def]
  have rx: "fl64 x = of_int (round_half_even (x / pow2 (Ex - 52))) * pow2 (Ex - 52)"
    using float64_pos(1) [OF px xb] by (simp add: fl64_def Ex_def)
  have ry: "fl64 y = of_int (round_half_even (y / pow2 (Ey - 52))) * pow2 (Ey - 52)"
    using float64_pos(1) [OF py assms(3)] by (simp add: fl64_def Ey_def)
  have qx: "0 < pow2 (Ex - 52)" and qy: "0 < pow2 (Ey - 52)" by (rule pow2_pos)+
  have le: "Ex \<le> Ey"
  proof (rule ccontr)
    assume "\<not> Ex \<le> Ey"
    then have gt: "Ey < Ex" by simp
    with Ey(1) have "- 1022 < Ex" by linarith
    then have "pow2 Ex \<le> x" by (rule Ex(4))
    moreover have "pow2 (Ey + 1) \<le> pow2 Ex" using gt by (intro pow2_mono) simp
    ultimately show False using Ey(3) assms(2) by linarith
  qed
  show ?thesis
  proof (cases "Ex = Ey")
    case True
    have "x / pow2 (Ey - 52) \<le> y / pow2 (Ey - 52)" using assms(2) qy by (simp add: divide_right_mono)
    then have "round_half_even (x / pow2 (Ey - 52)) \<le> round_half_even (y / pow2 (Ey - 52))"
      by (rule rhe_mono)
    then have "(of_int (round_half_even (x / pow2 (Ey - 52))) :: real)
        \<le> of_int (round_half_even (y / pow2 (Ey - 52)))"
      by (simp only: of_int_le_iff)
    then have "of_int (round_half_even (x / pow2 (Ey - 52))) * pow2 (Ey - 52)
        \<le> of_int (round_half_even (y / pow2 (Ey - 52))) * pow2 (Ey - 52)"
      using qy by (simp add: mult_right_mono)
    then show ?thesis unfolding rx ry True .
  next
    case False
    with le have lt: "Ex < Ey" by simp
    have up: "fl64 x \<le> pow2 (Ex + 1)"
    proof -
      have "x / pow2 (Ex - 52) \<le> pow2 (Ex + 1) / pow2 (Ex - 52)"
        using Ex(3) qx by (simp add: divide_right_mono)
      also have "pow2 (Ex + 1) / pow2 (Ex - 52) = pow2 53"
        unfolding pow2_diff [symmetric] by simp
      also have "pow2 53 = of_int (2 ^ 53)" by (simp add: pow2_def)
      finally have "round_half_even (x / pow2 (Ex - 52)) \<le> round_half_even (of_int (2 ^ 53))"
        by (rule rhe_mono)
      then have "round_half_even (x / pow2 (Ex - 52)) \<le> 2 ^ 53" by (simp only: rhe_of_int)
      then have "(of_int (round_half_even (x / pow2 (Ex - 52))) :: real) \<le> of_int (2 ^ 53)"
        by (simp only: of_int_le_iff)
      then have "of_int (round_half_even (x / pow2 (Ex - 52))) * pow2 (Ex - 52)
          \<le> of_int (2 ^ 53) * pow2 (Ex - 52)"
        using qx by (simp add: mult_right_mono)
      also have "of_int (2 ^ 53) * pow2 (Ex - 52) = pow2 53 * pow2 (Ex - 52)" by (simp add: pow2_def)
      also have "\<dots> = pow2 (Ex + 1)" unfolding pow2_add [symmetric] by (simp add: add.commute)
      finally show ?thesis unfolding rx .
    qed
    have low: "pow2 Ey \<le> fl64 y"
    proof -
      from lt Ex(1) have "- 1022 < Ey" by linarith
      then have "pow2 Ey \<le> y" by (rule Ey(4))
      then have "pow2 Ey / pow2 (Ey - 52) \<le> y / pow2 (Ey - 52)"
        using qy by (simp add: divide_right_mono)
      moreover have "pow2 Ey / pow2 (Ey - 52) = pow2 52" unfolding pow2_diff [symmetric] by simp
      moreover have "pow2 52 = of_int (2 ^ 52)" by (simp add: pow2_def)
      ultimately have "of_int (2 ^ 52) \<le> y / pow2 (Ey - 52)" by simp
      then have "round_half_even (of_int (2 ^ 52)) \<le> round_half_even (y / pow2 (Ey - 52))"
        by (rule rhe_mono)
      then have "2 ^ 52 \<le> round_half_even (y / pow2 (Ey - 52))" by (simp only: rhe_of_int)
      then have "(of_int (2 ^ 52) :: real) \<le> of_int (round_half_even (y / pow2 (Ey - 52)))"
        by (simp only: of_int_le_iff)
      then have "of_int (2 ^ 52) * pow2 (Ey - 52)
          \<le> of_int (round_half_even (y / pow2 (Ey - 52))) * pow2 (Ey - 52)"
        using qy by (simp add: mult_right_mono)
      moreover have "of_int (2 ^ 52) * pow2 (Ey - 52) = pow2 52 * pow2 (Ey - 52)"
        by (simp add: pow2_def)
      moreover have "pow2 52 * pow2 (Ey - 52) = pow2 Ey" unfolding pow2_add [symmetric] by simp
      ultimately show ?thesis unfolding ry by simp
    qed
    have "pow2 (Ex + 1) \<le> pow2 Ey" using lt by (intro pow2_mono) simp
    with up low show ?thesis by linarith
  qed
qed

subsection \<open>Domain conversion\<close>

lemma time_to_freq_Num: "x \<noteq> 0 \<Longrightarrow> time_to_freq (Num x) = Num (1 / (2 * x))"
  by (simp add: time_to_freq_def)

lemma float64_half: "rounded (np_div (Num 1) (Num 2)) = Num (1 / 2)"
  by code_simp

lemma time_to_freq64_Num: "f \<noteq> 0 \<Longrightarrow> time_to_freq64 (Num f) = float64 (1 / (2 * f))"
  by (simp only: time_to_freq64_def float64_half) (simp add: rounded_def)

lemma pow2_numeral_bounds:
  "pow2 (- 1022) \<le> 1 / 2 ^ 1001" "(2 :: real) ^ 1001 \<le> pow2 1023"
  "pow2 (- 1022) \<le> 1 / 2 ^ 1021" "(2 :: real) ^ 1021 \<le> pow2 1023"
proof -
  have a: "pow2 (- 1001) = 1 / 2 ^ 1001" "pow2 1001 = 2 ^ 1001"
    "pow2 (- 1021) = 1 / 2 ^ 1021" "pow2 1021 = 2 ^ 1021" by (simp_all add: pow2_def)
  have "pow2 (- 1022) \<le> pow2 (- 1001)" "pow2 1001 \<le> pow2 1023"
    "pow2 (- 1022) \<le> pow2 (- 1021)" "pow2 1021 \<le> pow2 1023" by (rule pow2_mono, simp)+
  then show "pow2 (- 1022) \<le> 1 / 2 ^ 1001" "(2 :: real) ^ 1001 \<le> pow2 1023"
    "pow2 (- 1022) \<le> 1 / 2 ^ 1021" "(2 :: real) ^ 1021 \<le> pow2 1023"
    by (simp_all only: a)
qed

lemma half_recip_bound:
  fixes f t u :: real
  assumes "0 < f" and "0 \<le> u" and "u \<le> 1 / 2"
    and "\<bar>t - 1 / (2 * f)\<bar> \<le> 1 / (2 * f) * u"
  shows "0 < t" and "f / 2 \<le> 1 / (2 * t)" and "1 / (2 * t) \<le> 2 * f"
    and "\<bar>1 / (2 * t) - f\<bar> \<le> 1 / (2 * t) * u"
proof -
  define x where "x = 1 / (2 * f)"
  have x: "0 < x" using assms(1) by (simp add: x_def)
  have f: "f = 1 / (2 * x)" using assms(1) by (simp add: x_def)
  have xu: "x * u \<le> x / 2" using assms(3) x by (simp add: mult_left_mono)
  from assms(4) have d: "\<bar>t - x\<bar> \<le> x * u" by (simp only: x_def)
  from d xu have lo: "x / 2 \<le> t" and hi: "t \<le> 2 * x" by linarith+
  from lo x show t: "0 < t" by linarith
  have "1 / (2 * t) \<le> 1 / x" using lo x t by (intro divide_left_mono) simp_all
  then show "1 / (2 * t) \<le> 2 * f" using x by (simp add: f)
  have "1 / (4 * x) \<le> 1 / (2 * t)" using hi x t by (intro divide_left_mono) simp_all
  then show "f / 2 \<le> 1 / (2 * t)" using x by (simp add: f)
  have "1 / (2 * t) - f = (x - t) / (2 * t * x)"
    using x t by (simp add: f field_simps)
  then have "\<bar>1 / (2 * t) - f\<bar> = \<bar>t - x\<bar> / (2 * t * x)"
    using x t by (simp add: abs_divide abs_minus_commute)
  also have "\<dots> \<le> x * u / (2 * t * x)"
    using d x t by (intro divide_right_mono) simp_all
  also have "\<dots> = 1 / (2 * t) * u" using x t by simp
  finally show "\<bar>1 / (2 * t) - f\<bar> \<le> 1 / (2 * t) * u" .
qed

lemma round_trip_float64_bound:
  assumes "1 / 2 ^ 1000 \<le> f" and "f \<le> 2 ^ 1000"
  shows "\<exists>g. time_to_freq64 (time_to_freq64 (Num f)) = Num g \<and> \<bar>g - f\<bar> \<le> f / 2 ^ 51"
proof -
  define u :: real where "u = 1 / 2 ^ 53"
  have u: "0 \<le> u" "u \<le> 1 / 2" by (simp_all add: u_def)
  have f: "0 < f" using assms(1) by (rule less_le_trans [rotated]) simp
  define x where "x = 1 / (2 * f)"
  have xr: "1 / 2 ^ 1001 \<le> x" "x \<le> 2 ^ 999"
    using assms f by (simp_all add: x_def field_simps)
  have xlo: "pow2 (- 1022) \<le> x" using xr(1) pow2_numeral_bounds(1) by linarith
  have "(2 :: real) ^ 999 \<le> 2 ^ 1001" by simp
  with xr(2) pow2_numeral_bounds(2) have xhi: "x \<le> pow2 1023" by linarith
  have x0: "0 \<le> x" using f by (simp add: x_def)
  define t where "t = fl64 x"
  have t1: "time_to_freq64 (Num f) = Num t"
    using f fl64_Num [OF x0 xhi] by (simp add: time_to_freq64_Num x_def t_def)
  have "\<bar>t - x\<bar> \<le> x / 2 ^ 53" unfolding t_def by (rule fl64_err [OF xlo xhi])
  then have e1: "\<bar>t - 1 / (2 * f)\<bar> \<le> 1 / (2 * f) * u" by (simp add: x_def u_def)
  note b = half_recip_bound [OF f u e1]
  define y where "y = 1 / (2 * t)"
  have "f / 2 \<le> y" "y \<le> 2 * f" using b(2,3) by (simp_all add: y_def)
  with assms have yr: "1 / 2 ^ 1001 \<le> y" "y \<le> 2 ^ 1001" by (simp_all add: field_simps)
  have ylo: "pow2 (- 1022) \<le> y" using yr(1) pow2_numeral_bounds(1) by linarith
  have yhi: "y \<le> pow2 1023" using yr(2) pow2_numeral_bounds(2) by linarith
  have y0: "0 \<le> y" using b(1) by (simp add: y_def)
  define g where "g = fl64 y"
  have t2: "time_to_freq64 (Num t) = Num g"
    using b(1) fl64_Num [OF y0 yhi] by (simp add: time_to_freq64_Num y_def g_def)
  have e2: "\<bar>g - y\<bar> \<le> y / 2 ^ 53" unfolding g_def by (rule fl64_err [OF ylo yhi])
  have e3: "\<bar>y - f\<bar> \<le> y * u" using b(4) by (simp only: y_def)
  have "\<bar>g - f\<bar> \<le> \<bar>g - y\<bar> + \<bar>y - f\<bar>" by linarith
  also have "\<dots> \<le> 2 * (y * u)" using e2 e3 by (simp add: u_def)
  also have "\<dots> \<le> 2 * (2 * f * u)"
    using \<open>y \<le> 2 * f\<close> u(1) by (intro mult_left_mono mult_right_mono) simp_all
  also have "\<dots> = f / 2 ^ 51" by (simp add: u_def)
  finally have "\<bar>g - f\<bar> \<le> f / 2 ^ 51" .
  with t1 t2 show ?thesis by auto
qed

text \<open>
  Claim C8, as the code has it. In exact arithmetic the time \<open>tau = 1 / (2 f)\<close> is
  converted back by the program's \<open>1 / 2 / tau\<close> to \<open>f\<close> for every \<open>f > 0\<close>, and the
  conversion applied twice is the identity. With the two divisions rounded to
  \<open>float64\<close>, as the program computes them, the round trip of an \<open>f\<close> between \<open>2^-1000\<close>
  and \<open>2^1000\<close> is a number within \<open>f * 2^-51\<close> of \<open>f\<close>.
\<close>

theorem time_freq_round_trip:
  "0 < f \<Longrightarrow> time_to_freq (Num (1 / (2 * f))) = Num f
     \<and> time_to_freq (time_to_freq (Num f)) = Num f
     \<and> (1 / 2 ^ 1000 \<le> f \<and> f \<le> 2 ^ 1000 \<longrightarrow>
          (\<exists>g. time_to_freq64 (time_to_freq64 (Num f)) = Num g \<and> \<bar>g - f\<bar> \<le> f / 2 ^ 51))"
  using round_trip_float64_bound [of f] by (simp add: time_to_freq_def)

theorem time_freq_round_trip_witness:
  "(0::real) < 4 \<and> time_to_freq (Num (1 / (2 * 4))) = Num 4
     \<and> time_to_freq (time_to_freq (Num 4)) = Num 4
     \<and> (1 :: real) / 2 ^ 1000 \<le> 4 \<and> (4 :: real) \<le> 2 ^ 1000
     \<and> (\<exists>g. time_to_freq64 (time_to_freq64 (Num 4)) = Num g \<and> \<bar>g - 4\<bar> \<le> 4 / 2 ^ 51)"
proof -
  have h: "(0::real) < 4" "(1 :: real) / 2 ^ 1000 \<le> 4" "(4 :: real) \<le> 2 ^ 1000" by simp_all
  from time_freq_round_trip [OF h(1)] h show ?thesis by blast
qed

text \<open>
  In \<open>float64\<close> the round trip of 49 is the next number above 49: \<open>1 / 2 / 49\<close> is
  rounded down, and \<open>1 / 2\<close> divided by the rounded value is rounded to \<open>49 + 2^-47\<close>.
\<close>

lemma float64_half_over_49:
  "rounded (np_div (Num (1 / 2)) (Num 49)) = Num (5882252574524729 / 576460752303423488)"
  by code_simp

lemma float64_back_from_49:
  "rounded (np_div (Num (1 / 2)) (Num (5882252574524729 / 576460752303423488)))
     = Num (6896136929411073 / 140737488355328)"
  by code_simp

theorem round_trip_float64_counterexample:
  "time_to_freq64 (Num 49) = Num (5882252574524729 / 576460752303423488)
   \<and> time_to_freq64 (time_to_freq64 (Num 49)) = Num (49 + 1 / 2 ^ 47)
   \<and> Num (49 + 1 / 2 ^ 47) \<noteq> Num 49"
  by (simp only: time_to_freq64_def float64_half float64_half_over_49 float64_back_from_49)
     simp

subsection \<open>The example window\<close>

lemma load_demo:
  "load_data demo_dataset \<lparr>N15_table = [], C13_table = [], tau = [], freq = [],
      gyromagnetic_ratios = Map.empty, ax = [], xlabel = [], messages = [],
      canvas = [], plot_ready = False\<rparr> = Inr demo_app"
  by (simp add: demo_app_def load_data_def demo_dataset_def gyromagnetic_ratios_raw_def
      py_let_def py_getitem_def Let_def)

lemma init_demo: "init demo_dataset = Inr demo_app"
  by (simp add: init_def load_demo py_let_def) (simp add: demo_app_def)

lemma demo_keys: "\<forall>k\<in>dom (gyromagnetic_ratios demo_app). 2 \<le> length (gyro_key_map k)"
  by (simp add: demo_app_def gyro_key_map_def removeprefix_def)

subsection \<open>The markers\<close>

lemma marker_xs_append: "marker_xs (xs @ ys) = marker_xs xs @ marker_xs ys"
  by (induction xs rule: marker_xs.induct) simp_all

lemma marker_C_eq: "marker_C cs w gyro idx val = marker_N cs w gyro idx val"
  by (simp add: marker_C_def marker_N_def)

lemma marker_loop_C_eq: "marker_loop_C cs w idx vals s = marker_loop_N cs w idx vals s"
  by (induction vals arbitrary: idx s) (simp_all add: marker_C_eq split: sum.splits)

lemma py_getitem_nat: "i < length xs \<Longrightarrow> py_getitem xs (int i) = Inr (xs ! i)"
  by (simp add: py_getitem_def)

lemma unit_list_getitem:
  "u < 4 \<Longrightarrow> py_getitem unit_list (int u) = Inr (unit_list ! u) \<and> unit_list ! u \<noteq> 0"
proof -
  assume "u < 4"
  then consider "u = 0" | "u = 1" | "u = 2" | "u = 3" by linarith
  then show ?thesis
    by cases (simp_all add: py_getitem_def unit_list_def)
qed

text \<open>
  A key with \<open></sup>\<close> in it splits into at least two parts, so the keys that
  \<open>load_data\<close> builds always give the marker loop the two parts of its label.
\<close>

lemma str_split_nonempty: "str_split sep cur s \<noteq> []"
  by (induction sep cur s rule: str_split.induct) simp_all

lemma str_split_sep: "sep \<noteq> [] \<Longrightarrow> 2 \<le> length (str_split sep cur (a @ sep @ b))"
proof (induction a arbitrary: cur)
  case Nil
  then obtain c sep' where sep: "sep = c # sep'" by (cases sep) auto
  have "str_split sep cur (c # sep' @ b) = rev cur # str_split sep [] b"
    by (simp add: sep)
  then show ?case
    using str_split_nonempty [of sep "[]" b] by (cases "str_split sep [] b") (simp_all add: sep)
next
  case (Cons c a)
  show ?case
  proof (cases "take (length sep) (c # a @ sep @ b) = sep")
    case True
    with Cons.prems
    have "str_split sep cur (c # a @ sep @ b)
        = rev cur # str_split sep [] (drop (length sep) (c # a @ sep @ b))"
      by simp
    then show ?thesis
      using str_split_nonempty [of sep "[]" "drop (length sep) (c # a @ sep @ b)"]
      by (cases "str_split sep [] (drop (length sep) (c # a @ sep @ b))") simp_all
  next
    case False
    then have "str_split sep cur (c # a @ sep @ b) = str_split sep (c # cur) (a @ sep @ b)"
      by simp
    with Cons.IH [OF Cons.prems, of "c # cur"] show ?thesis by simp
  qed
qed

lemma gyro_key_map_parts: "2 \<le> length (gyro_key_map (''<sup>'' @ a @ ''</sup>'' @ b))"
proof -
  have "removeprefix ''<sup>'' (''<sup>'' @ a @ ''</sup>'' @ b) = a @ ''</sup>'' @ b"
    by (simp add: removeprefix_def)
  then show ?thesis
    using str_split_sep [of "''</sup>''" "[]" a b] by (simp add: gyro_key_map_def)
qed

lemma gyro_entries_keys:
  "gyro_entries kvs d = Inr d' \<Longrightarrow> \<forall>k\<in>dom d. 2 \<le> length (gyro_key_map k)
     \<Longrightarrow> \<forall>k\<in>dom d'. 2 \<le> length (gyro_key_map k)"
proof (induction kvs arbitrary: d)
  case Nil
  then show ?case by simp
next
  case (Cons kv kvs)
  obtain k v where kv: "kv = (k, v)" by (cases kv)
  from Cons.prems(1) obtain t1 t0 where
    run: "gyro_entries kvs (d(''<sup>'' @ t1 @ ''</sup>'' @ t0 \<mapsto> v)) = Inr d'"
    by (auto simp add: kv py_let_def Let_def split: sum.splits)
  have "\<forall>k\<in>dom (d(''<sup>'' @ t1 @ ''</sup>'' @ t0 \<mapsto> v)). 2 \<le> length (gyro_key_map k)"
    using Cons.prems(2) gyro_key_map_parts [of t1 t0] by auto
  from Cons.IH [OF run this] show ?case .
qed

lemma load_data_keys:
  "load_data ds self = Inr s \<Longrightarrow> \<forall>k\<in>dom (gyromagnetic_ratios s). 2 \<le> length (gyro_key_map k)"
proof -
  assume "load_data ds self = Inr s"
  then obtain g where g: "gyro_entries (gyromagnetic_ratios_raw (gyro_table ds)) Map.empty = Inr g"
    and s: "gyromagnetic_ratios s = g"
    by (auto simp add: load_data_def py_let_def Let_def split: sum.splits)
  from gyro_entries_keys [OF g] show ?thesis by (simp add: s)
qed

lemma marker_N_position:
  fixes F
  defines "F \<equiv> \<lambda>m B0 fd g. let t = np_div (Num 1) (Num (2 * (g / m) * B0 * (1 / 1000)))
                            in if fd then np_div (Num 1) (np_mul (Num 2) t) else t"
  assumes "gyro val = Some g" and "unit_btngrp w = int u" and "u < 4"
    and "marker_N cs w gyro idx val = Inr a"
  shows "marker_xs [a] = [F (unit_list ! u) (B0_widget w) (radio2 w) g]"
proof -
  from unit_list_getitem [OF assms(4)]
  have u: "py_getitem unit_list (int u) = Inr (unit_list ! u)" and nz: "unit_list ! u \<noteq> 0"
    by simp_all
  show ?thesis
    using assms(5) nz
    by (auto simp add: marker_N_def assms(2,3) u dict_get_def py_let_def Let_def
        F_def time_to_freq_def split: sum.splits)
qed

lemma marker_N_complete:
  assumes "gyro val = Some g" and "2 \<le> length (gyro_key_map val)"
    and "unit_btngrp w = int u" and "u < 4" and "Suc idx < length cs"
  shows "\<exists>a. marker_N cs w gyro idx val = Inr a"
proof -
  from unit_list_getitem [OF assms(4)]
  have u: "py_getitem unit_list (int u) = Inr (unit_list ! u)" by simp
  have l0: "py_getitem (gyro_key_map val) 0 = Inr (gyro_key_map val ! 0)"
    using assms(2) by (auto simp add: py_getitem_def)
  have l1: "py_getitem (gyro_key_map val) 1 = Inr (gyro_key_map val ! 1)"
    using assms(2) by (auto simp add: py_getitem_def)
  have c: "py_getitem cs (int idx + 1) = Inr (cs ! Suc idx)"
    using py_getitem_nat [OF assms(5)] by (simp add: add.commute)
  show ?thesis
    by (simp add: marker_N_def assms(1,3) u l0 l1 c dict_get_def py_let_def Let_def)
qed

lemma marker_loop_N_positions:
  fixes F
  defines "F \<equiv> \<lambda>m B0 fd g. let t = np_div (Num 1) (Num (2 * (g / m) * B0 * (1 / 1000)))
                            in if fd then np_div (Num 1) (np_mul (Num 2) t) else t"
  assumes "map (gyromagnetic_ratios s) vals = map Some gs"
    and "unit_btngrp w = int u" and "u < 4"
    and "marker_loop_N cs w idx vals s = (s', r)"
  shows "\<exists>ms. s' = s\<lparr>ax := ax s @ ms\<rparr> \<and> length ms \<le> length gs
           \<and> length (marker_xs ms) = length ms
           \<and> marker_xs ms = map (F (unit_list ! u) (B0_widget w) (radio2 w)) (take (length ms) gs)
           \<and> (r = Inr () \<longrightarrow> length ms = length gs)"
  using assms(2,5)
proof (induction vals arbitrary: idx s gs)
  case Nil
  then show ?case by (intro exI [of _ "[]"]) auto
next
  case (Cons val vals)
  from Cons.prems(1) obtain g gs' where gs: "gs = g # gs'"
    and g: "gyromagnetic_ratios s val = Some g"
    and rest: "map (gyromagnetic_ratios s) vals = map Some gs'"
    by (cases gs) auto
  show ?case
  proof (cases "marker_N cs w (gyromagnetic_ratios s) idx val")
    case (Inl e)
    with Cons.prems(2) have "s' = s" "r = Inl e" by simp_all
    then show ?thesis by (intro exI [of _ "[]"]) simp
  next
    case (Inr a)
    let ?s1 = "s\<lparr>ax := ax s @ [a]\<rparr>"
    from Inr Cons.prems(2) have run: "marker_loop_N cs w (Suc idx) vals ?s1 = (s', r)"
      by simp
    have "map (gyromagnetic_ratios ?s1) vals = map Some gs'"
      using rest by simp
    from Cons.IH [OF this run] obtain ms where s': "s' = ?s1\<lparr>ax := ax ?s1 @ ms\<rparr>"
      and len: "length ms \<le> length gs'" and all: "length (marker_xs ms) = length ms"
      and xs: "marker_xs ms = map (F (unit_list ! u) (B0_widget w) (radio2 w)) (take (length ms) gs')"
      and fin: "r = Inr () \<longrightarrow> length ms = length gs'"
      by blast
    have a: "marker_xs [a] = [F (unit_list ! u) (B0_widget w) (radio2 w) g]"
      unfolding F_def by (rule marker_N_position [OF g assms(3,4) Inr])
    then have a': "marker_xs (a # ms) = F (unit_list ! u) (B0_widget w) (radio2 w) g # marker_xs ms"
      using marker_xs_append [of "[a]" ms] by simp
    show ?thesis
      using s' len all xs fin a'
      by (intro exI [of _ "a # ms"]) (simp add: gs)
  qed
qed

lemma marker_loop_N_complete:
  assumes "map (gyromagnetic_ratios s) vals = map Some gs"
    and "\<forall>k\<in>dom (gyromagnetic_ratios s). 2 \<le> length (gyro_key_map k)"
    and "unit_btngrp w = int u" and "u < 4"
    and "idx + length vals < length cs"
  shows "snd (marker_loop_N cs w idx vals s) = Inr ()"
  using assms(1,2,5)
proof (induction vals arbitrary: idx s gs)
  case Nil
  then show ?case by simp
next
  case (Cons val vals)
  from Cons.prems(1) obtain g gs' where gs: "gs = g # gs'"
    and g: "gyromagnetic_ratios s val = Some g"
    and rest: "map (gyromagnetic_ratios s) vals = map Some gs'"
    by (cases gs) auto
  have wf: "2 \<le> length (gyro_key_map val)" using Cons.prems(2) g by blast
  have "Suc idx < length cs" using Cons.prems(3) by simp
  from marker_N_complete [of "gyromagnetic_ratios s" val g w u idx cs, OF g wf assms(3,4) this]
  obtain a where a: "marker_N cs w (gyromagnetic_ratios s) idx val = Inr a" by blast
  let ?s1 = "s\<lparr>ax := ax s @ [a]\<rparr>"
  have 1: "map (gyromagnetic_ratios ?s1) vals = map Some gs'" using rest by simp
  have 2: "\<forall>k\<in>dom (gyromagnetic_ratios ?s1). 2 \<le> length (gyro_key_map k)"
    using Cons.prems(2) by simp
  have 3: "Suc idx + length vals < length cs" using Cons.prems(3) by simp
  from Cons.IH [OF 1 2 3] a show ?case by simp
qed

text \<open>
  Claim C1. With a field \<open>B0 \<noteq> 0\<close> and a unit index \<open>u\<close> in \<open>0..3\<close>, every marker that
  the marker block of \<open>update_plot_N\<close> and of \<open>update_plot_C\<close> draws for a selected
  label with ratio \<open>g\<close> is at \<open>1 / (2 (g / unit_list[u]) B0 1e-3)\<close> in the time domain
  and at \<open>1 / (2 tau)\<close> of that value \<open>tau\<close> in the frequency domain; the markers are
  drawn in selection order. When the keys of the dictionary have the form that
  \<open>load_data\<close> gives them and fewer labels are selected than the colour cycle has
  colours, the block completes and draws the marker of every selected label.
\<close>

theorem marker_positions:
  assumes "B0_widget w \<noteq> 0" and "unit_btngrp w = int u" and "u < 4"
    and "map (gyromagnetic_ratios s) (gyromagnetic_widget w) = map Some gs"
  shows "(\<exists>n\<le>length gs.
            marker_xs (ax (fst (markers_N cs w s))) = marker_xs (ax s)
              @ map (\<lambda>g. let t = np_div (Num 1) (Num (2 * (g / unit_list ! u) * B0_widget w * (1 / 1000)))
                          in if radio2 w then np_div (Num 1) (np_mul (Num 2) t) else t) (take n gs)
            \<and> (snd (markers_N cs w s) = Inr () \<longrightarrow> n = length gs))
       \<and> (\<exists>n\<le>length gs.
            marker_xs (ax (fst (markers_C cs w s))) = marker_xs (ax s)
              @ map (\<lambda>g. let t = np_div (Num 1) (Num (2 * (g / unit_list ! u) * B0_widget w * (1 / 1000)))
                          in if radio2 w then np_div (Num 1) (np_mul (Num 2) t) else t) (take n gs)
            \<and> (snd (markers_C cs w s) = Inr () \<longrightarrow> n = length gs))
       \<and> ((\<forall>k\<in>dom (gyromagnetic_ratios s). 2 \<le> length (gyro_key_map k))
            \<and> length (gyromagnetic_widget w) < length cs \<longrightarrow>
          snd (markers_N cs w s) = Inr () \<and> snd (markers_C cs w s) = Inr ()
          \<and> marker_xs (ax (fst (markers_N cs w s))) = marker_xs (ax s)
              @ map (\<lambda>g. let t = np_div (Num 1) (Num (2 * (g / unit_list ! u) * B0_widget w * (1 / 1000)))
                          in if radio2 w then np_div (Num 1) (np_mul (Num 2) t) else t) gs
          \<and> marker_xs (ax (fst (markers_C cs w s))) = marker_xs (ax s)
              @ map (\<lambda>g. let t = np_div (Num 1) (Num (2 * (g / unit_list ! u) * B0_widget w * (1 / 1000)))
                          in if radio2 w then np_div (Num 1) (np_mul (Num 2) t) else t) gs)"
proof -
  let ?F = "\<lambda>g. let t = np_div (Num 1) (Num (2 * (g / unit_list ! u) * B0_widget w * (1 / 1000)))
                 in if radio2 w then np_div (Num 1) (np_mul (Num 2) t) else t"
  obtain s' r where run: "marker_loop_N cs w 0 (gyromagnetic_widget w) s = (s', r)"
    by (cases "marker_loop_N cs w 0 (gyromagnetic_widget w) s") blast
  have N: "markers_N cs w s = (s', r)" and C: "markers_C cs w s = (s', r)"
    using assms(1) run by (simp_all add: markers_N_def markers_C_def marker_loop_C_eq)
  from marker_loop_N_positions [OF assms(4,2,3) run]
  obtain ms where s': "s' = s\<lparr>ax := ax s @ ms\<rparr>" and len: "length ms \<le> length gs"
    and xs: "marker_xs ms = map ?F (take (length ms) gs)"
    and fin: "r = Inr () \<longrightarrow> length ms = length gs"
    by blast
  have ax: "marker_xs (ax s') = marker_xs (ax s) @ map ?F (take (length ms) gs)"
    by (simp add: s' marker_xs_append xs)
  have prefix: "\<exists>n\<le>length gs. marker_xs (ax s') = marker_xs (ax s) @ map ?F (take n gs)
      \<and> (r = Inr () \<longrightarrow> n = length gs)"
    using len ax fin by blast
  have complete: "r = Inr () \<and> marker_xs (ax s') = marker_xs (ax s) @ map ?F gs"
    if "(\<forall>k\<in>dom (gyromagnetic_ratios s). 2 \<le> length (gyro_key_map k))
         \<and> length (gyromagnetic_widget w) < length cs"
  proof -
    from that have "0 + length (gyromagnetic_widget w) < length cs" by simp
    from marker_loop_N_complete [OF assms(4) _ assms(2,3) this] that run
    have r: "r = Inr ()" by simp
    with fin ax show ?thesis by simp
  qed
  show ?thesis
    unfolding N C fst_conv snd_conv using prefix complete by blast
qed

theorem marker_positions_witness:
  "B0_widget (demo_tab\<lparr>gyromagnetic_widget := [''<sup>1</sup>H'', ''<sup>13</sup>C''],
      unit_btngrp := 0, radio2 := True\<rparr>) \<noteq> 0
   \<and> unit_btngrp (demo_tab\<lparr>gyromagnetic_widget := [''<sup>1</sup>H'', ''<sup>13</sup>C''],
      unit_btngrp := 0, radio2 := True\<rparr>) = int 0
   \<and> (0::nat) < 4
   \<and> map (gyromagnetic_ratios demo_app)
        (gyromagnetic_widget (demo_tab\<lparr>gyromagnetic_widget := [''<sup>1</sup>H'', ''<sup>13</sup>C''],
           unit_btngrp := 0, radio2 := True\<rparr>))
       = map Some [42577 / 1000, 10708 / 1000]
   \<and> length (gyromagnetic_widget (demo_tab\<lparr>gyromagnetic_widget := [''<sup>1</sup>H'', ''<sup>13</sup>C''],
        unit_btngrp := 0, radio2 := True\<rparr>)) < length (colors demo_env)
   \<and> unit_list ! 0 = 1000
   \<and> snd (markers_N (colors demo_env)
        (demo_tab\<lparr>gyromagnetic_widget := [''<sup>1</sup>H'', ''<sup>13</sup>C''],
           unit_btngrp := 0, radio2 := True\<rparr>) demo_app) = Inr ()
   \<and> marker_xs (ax (fst (markers_N (colors demo_env)
        (demo_tab\<lparr>gyromagnetic_widget := [''<sup>1</sup>H'', ''<sup>13</sup>C''],
           unit_btngrp := 0, radio2 := True\<rparr>) demo_app)))
       = [Num (1 / (2 * (1 / (2 * (42577 / 1000 / 1000) * 5 * (1 / 1000))))),
          Num (1 / (2 * (1 / (2 * (10708 / 1000 / 1000) * 5 * (1 / 1000)))))]
   \<and> snd (markers_C (colors demo_env)
        (demo_tab\<lparr>gyromagnetic_widget := [''<sup>1</sup>H'', ''<sup>13</sup>C''],
           unit_btngrp := 0, radio2 := True\<rparr>) demo_app) = Inr ()
   \<and> marker_xs (ax (fst (markers_C (colors demo_env)
        (demo_tab\<lparr>gyromagnetic_widget := [''<sup>1</sup>H'', ''<sup>13</sup>C''],
           unit_btngrp := 0, radio2 := True\<rparr>) demo_app)))
       = [Num (1 / (2 * (1 / (2 * (42577 / 1000 / 1000) * 5 * (1 / 1000))))),
          Num (1 / (2 * (1 / (2 * (10708 / 1000 / 1000) * 5 * (1 / 1000)))))]"
proof -
  let ?w = "demo_tab\<lparr>gyromagnetic_widget := [''<sup>1</sup>H'', ''<sup>13</sup>C''],
      unit_btngrp := 0, radio2 := True\<rparr>"
  have h1: "B0_widget ?w \<noteq> 0" and h2: "unit_btngrp ?w = int 0" and h3: "(0::nat) < 4"
    and h4: "map (gyromagnetic_ratios demo_app) (gyromagnetic_widget ?w)
               = map Some [42577 / 1000, 10708 / 1000]"
    and h5: "length (gyromagnetic_widget ?w) < length (colors demo_env)"
    by (simp_all add: demo_tab_def demo_app_def demo_env_def)
  have u: "unit_list ! 0 = 1000" by (simp add: unit_list_def)
  have w: "B0_widget ?w = 5" "radio2 ?w = True" by (simp_all add: demo_tab_def)
  have a: "ax demo_app = []" by (simp add: demo_app_def)
  from marker_positions [OF h1 h2 h3 h4, of "colors demo_env"] demo_keys h5
  have "snd (markers_N (colors demo_env) ?w demo_app) = Inr ()
      \<and> snd (markers_C (colors demo_env) ?w demo_app) = Inr ()
      \<and> marker_xs (ax (fst (markers_N (colors demo_env) ?w demo_app)))
          = [Num (1 / (2 * (1 / (2 * (42577 / 1000 / 1000) * 5 * (1 / 1000))))),
             Num (1 / (2 * (1 / (2 * (10708 / 1000 / 1000) * 5 * (1 / 1000)))))]
      \<and> marker_xs (ax (fst (markers_C (colors demo_env) ?w demo_app)))
          = [Num (1 / (2 * (1 / (2 * (42577 / 1000 / 1000) * 5 * (1 / 1000))))),
             Num (1 / (2 * (1 / (2 * (10708 / 1000 / 1000) * 5 * (1 / 1000)))))]"
    unfolding w a by (simp add: u)
  with h1 h2 h3 h4 h5 u show ?thesis by blast
qed

text \<open>
  Claim C9. The marker block of \<open>update_plot_N\<close> and the marker block of
  \<open>update_plot_C\<close> do the same on the same input: the same lines at the same positions,
  the same exception if one is raised, and the same message box in the zero-field case.
\<close>

theorem marker_blocks_equivalent: "markers_N cs w s = markers_C cs w s"
  by (simp add: markers_C_def markers_N_def marker_loop_C_eq)

subsection \<open>The simulated curves\<close>

lemma x_axis_ax [simp]: "x_axis w (s\<lparr>ax := a\<rparr>) = x_axis w s"
  by (simp add: x_axis_def)

lemma x_axis_cleared [simp]: "x_axis w (s\<lparr>ax := a, xlabel := l\<rparr>) = x_axis w s"
  by (simp add: x_axis_def)

lemma x_axis_ok: "unit_btngrp w = int u \<Longrightarrow> u < 4 \<Longrightarrow> \<exists>xs. x_axis w s = Inr xs"
  using unit_list_getitem [of u] by (simp add: x_axis_def py_let_def)

lemma curve_N_run:
  assumes "x_axis w s = Inr xs"
  shows "curve_N w s =
     (s\<lparr>ax := ax s @
         [case read_where_N (N15_table s) (M_widget w) (B0_widget w) (theta_widget w) (ms_widget w) of
            [] \<Rightarrow> Text no_data_text
          | r # rs \<Rightarrow> Plot xs (n15_data r) ''Sim'']\<rparr>,
      Inr (case read_where_N (N15_table s) (M_widget w) (B0_widget w) (theta_widget w) (ms_widget w) of
             [] \<Rightarrow> Records []
           | r # rs \<Rightarrow> Series (n15_data r)))"
  using assms by (simp add: curve_N_def split: list.splits)

lemma curves_C_run:
  assumes "x_axis w s = Inr xs"
  shows "curves_C w fams XY8 s =
     (s\<lparr>ax := ax s @ map (\<lambda>fam.
          case read_where_C (C13_table s) (M_widget w) fam (B0_widget w) (ms_widget w) of
            [] \<Rightarrow> Text no_data_text
          | r # rs \<Rightarrow> Plot xs (c13_data r) fam) fams\<rparr>,
      Inr (if fams = [] then XY8
           else Some (case read_where_C (C13_table s) (M_widget w) (last fams) (B0_widget w) (ms_widget w) of
                  [] \<Rightarrow> Records []
                | r # rs \<Rightarrow> Series (c13_data r))))"
  using assms
proof (induction fams arbitrary: XY8 s)
  case Nil
  then show ?case by simp
next
  case (Cons fam fams)
  show ?case
  proof (cases "read_where_C (C13_table s) (M_widget w) fam (B0_widget w) (ms_widget w)")
    case Nil
    let ?s1 = "s\<lparr>ax := ax s @ [Text no_data_text]\<rparr>"
    have "x_axis w ?s1 = Inr xs" using Cons.prems by simp
    from Cons.IH [OF this, of "Some (Records [])"] Nil
    show ?thesis by simp
  next
    case (Cons r rs)
    let ?s1 = "s\<lparr>ax := ax s @ [Plot xs (c13_data r) fam]\<rparr>"
    have "x_axis w ?s1 = Inr xs" using Cons.prems by simp
    from Cons.IH [OF this, of "Some (Series (c13_data r))"] Cons Cons.prems
    show ?thesis by simp
  qed
qed

lemma marker_xs_curves:
  "marker_xs (map (\<lambda>fam. case q fam of [] \<Rightarrow> Text t | r # rs \<Rightarrow> Plot xs (d r) fam) fams) = []"
  by (induction fams) (simp_all split: list.splits)




subsection \<open>The stages of the two methods\<close>

lemma py_bind_assoc: "py_bind (py_bind m f) g = py_bind m (\<lambda>x. py_bind (f x) g)"
  by (rule ext) (simp add: py_bind_def split: prod.splits sum.splits)

lemma update_plot_N_split:
  "update_plot_N e w =
     py_bind (curves_and_overlay_N e w) (\<lambda>_. py_bind (markers_N (colors e) w) (\<lambda>_. finish w))"
  by (simp add: update_plot_N_def curves_and_overlay_N_def py_bind_assoc)

lemma update_plot_C_split:
  "update_plot_C e w =
     py_bind (curves_and_overlay_C e w) (\<lambda>_. py_bind (markers_C (colors e) w) (\<lambda>_. finish w))"
  by (simp add: update_plot_C_def curves_and_overlay_C_def py_bind_assoc)

lemma overlay_N_shape:
  "overlay_N e w XY8 s = (s, Inr ()) \<or> (\<exists>err. overlay_N e w XY8 s = (s, Inl err))
     \<or> (\<exists>x v. overlay_N e w XY8 s = (s\<lparr>ax := ax s @ [Scatter x v ''Exp'']\<rparr>, Inr ()))"
  by (auto simp add: overlay_N_def ax_add_def py_let_def Let_def split: sum.splits)

lemma overlay_C_shape:
  "overlay_C e w XY8 s = (s, Inr ()) \<or> (\<exists>err. overlay_C e w XY8 s = (s, Inl err))
     \<or> (\<exists>x v. overlay_C e w XY8 s = (s\<lparr>ax := ax s @ [Scatter x v ''Exp'']\<rparr>, Inr ()))"
  by (auto simp add: overlay_C_def ax_add_def py_let_def Let_def split: sum.splits)

lemma overlay_N_disabled:
  "\<not> (expt_chkbox w \<and> expt_filename w \<noteq> []) \<Longrightarrow> overlay_N e w XY8 s = (s, Inr ())"
  by (auto simp add: overlay_N_def)

lemma overlay_C_disabled:
  "\<not> (expt_chkbox w \<and> expt_filename w \<noteq> []) \<Longrightarrow> overlay_C e w XY8 s = (s, Inr ())"
  by (auto simp add: overlay_C_def)

lemma unit_label_getitem:
  "u < 4 \<Longrightarrow> py_getitem unit_label_f (int u) = Inr (unit_label_f ! u)
     \<and> py_getitem unit_label_t (int u) = Inr (unit_label_t ! u)"
  by (simp add: py_getitem_def unit_label_f_def unit_label_t_def)

lemma finish_run:
  assumes "unit_btngrp w = int u" and "u < 4"
  shows "finish w s =
     (s\<lparr>xlabel := (if radio2 w then unit_label_f ! u else unit_label_t ! u),
        ax := ax s @ [Text ''arXiv:2407.09411 [quant-ph]''],
        canvas := ax s @ [Text ''arXiv:2407.09411 [quant-ph]''],
        plot_ready := True\<rparr>, Inr ())"
  using unit_label_getitem [OF assms(2)] by (simp add: finish_def assms(1) Let_def)




lemma markers_N_zero_field:
  "B0_widget w = 0 \<Longrightarrow> gyromagnetic_widget w \<noteq> []
     \<Longrightarrow> markers_N cs w s = (s\<lparr>messages := messages s @ [''Cannot divide by zero'']\<rparr>, Inr ())"
  by (simp add: markers_N_def)

lemma markers_N_no_label: "gyromagnetic_widget w = [] \<Longrightarrow> markers_N cs w s = (s, Inr ())"
  by (simp add: markers_N_def)

lemma markers_C_N: "markers_C cs w s = markers_N cs w s"
  by (simp add: markers_C_def markers_N_def marker_loop_C_eq)

text \<open>
  What the statements before the marker block leave, for a unit index in \<open>0..3\<close>: the
  cleared axes hold the simulated curves and text boxes and, when the overlay was
  drawn, its scatter; the outcome is that of the overlay.
\<close>

lemma xlabel_ax_update: "s\<lparr>xlabel := l, ax := a\<rparr> = s\<lparr>ax := a, xlabel := l\<rparr>"
  by simp

lemma curves_and_overlay_N_run:
  assumes "x_axis w s = Inr xs"
  shows "curves_and_overlay_N e w s =
     overlay_N e w
       (case read_where_N (N15_table s) (M_widget w) (B0_widget w) (theta_widget w) (ms_widget w) of
          [] \<Rightarrow> Records []
        | r # rs \<Rightarrow> Series (n15_data r))
       (s\<lparr>ax := [case read_where_N (N15_table s) (M_widget w) (B0_widget w) (theta_widget w)
                       (ms_widget w) of
                  [] \<Rightarrow> Text no_data_text
                | r # rs \<Rightarrow> Plot xs (n15_data r) ''Sim''], xlabel := []\<rparr>)"
proof -
  have "x_axis w (s\<lparr>ax := [], xlabel := []\<rparr>) = Inr xs" using assms by simp
  then show ?thesis
    by (simp add: curves_and_overlay_N_def py_bind_def ax_clear_def curve_N_run xlabel_ax_update)
qed

lemma curves_and_overlay_C_run:
  assumes "x_axis w s = Inr xs"
  shows "curves_and_overlay_C e w s =
     overlay_C e w
       (if families_widget w = [] then None
        else Some (case read_where_C (C13_table s) (M_widget w) (last (families_widget w))
                          (B0_widget w) (ms_widget w) of
               [] \<Rightarrow> Records []
             | r # rs \<Rightarrow> Series (c13_data r)))
       (s\<lparr>ax := map (\<lambda>fam.
                  case read_where_C (C13_table s) (M_widget w) fam (B0_widget w) (ms_widget w) of
                    [] \<Rightarrow> Text no_data_text
                  | r # rs \<Rightarrow> Plot xs (c13_data r) fam) (families_widget w), xlabel := []\<rparr>)"
proof -
  have "x_axis w (s\<lparr>ax := [], xlabel := []\<rparr>) = Inr xs" using assms by simp
  then show ?thesis
    by (simp add: curves_and_overlay_C_def py_bind_def ax_clear_def curves_C_run
        xlabel_ax_update del: curves_C.simps)
qed

lemma curves_and_overlay_N_frame:
  assumes "unit_btngrp w = int u" and "u < 4"
  shows "\<exists>a. fst (curves_and_overlay_N e w s) = s\<lparr>ax := a, xlabel := []\<rparr> \<and> marker_xs a = []"
proof -
  from x_axis_ok [OF assms] obtain xs where xs: "x_axis w s = Inr xs" by blast
  let ?c = "case read_where_N (N15_table s) (M_widget w) (B0_widget w) (theta_widget w)
                   (ms_widget w) of
              [] \<Rightarrow> Text no_data_text
            | r # rs \<Rightarrow> Plot xs (n15_data r) ''Sim''"
  let ?v = "case read_where_N (N15_table s) (M_widget w) (B0_widget w) (theta_widget w) (ms_widget w) of
          [] \<Rightarrow> Records []
        | r # rs \<Rightarrow> Series (n15_data r)"
  have c: "marker_xs [?c] = []" by (simp split: list.splits)
  from overlay_N_shape [of e w ?v "s\<lparr>ax := [?c], xlabel := []\<rparr>"]
  consider "fst (curves_and_overlay_N e w s) = s\<lparr>ax := [?c], xlabel := []\<rparr>"
    | x v where "fst (curves_and_overlay_N e w s) = s\<lparr>ax := [?c] @ [Scatter x v ''Exp''], xlabel := []\<rparr>"
    unfolding curves_and_overlay_N_run [OF xs] by (auto simp add: xlabel_ax_update)
  then show ?thesis
  proof cases
    case 1
    with c show ?thesis by blast
  next
    case 2
    have "marker_xs ([?c] @ [Scatter x v ''Exp'']) = []"
      using c by (simp only: marker_xs_append) simp
    with 2 show ?thesis by blast
  qed
qed

lemma curves_and_overlay_C_frame:
  assumes "unit_btngrp w = int u" and "u < 4"
  shows "\<exists>xs a. x_axis w s = Inr xs
        \<and> fst (curves_and_overlay_C e w s)
           = s\<lparr>ax := map (\<lambda>fam.
                  case read_where_C (C13_table s) (M_widget w) fam (B0_widget w) (ms_widget w) of
                    [] \<Rightarrow> Text no_data_text
                  | r # rs \<Rightarrow> Plot xs (c13_data r) fam) (families_widget w) @ a,
                xlabel := []\<rparr>
        \<and> marker_xs a = [] \<and> plotted a = [] \<and> count_list a (Text no_data_text) = 0"
proof -
  from x_axis_ok [OF assms] obtain xs where xs: "x_axis w s = Inr xs" by blast
  let ?c = "map (\<lambda>fam.
                  case read_where_C (C13_table s) (M_widget w) fam (B0_widget w) (ms_widget w) of
                    [] \<Rightarrow> Text no_data_text
                  | r # rs \<Rightarrow> Plot xs (c13_data r) fam) (families_widget w)"
  let ?v = "if families_widget w = [] then None
        else Some (case read_where_C (C13_table s) (M_widget w) (last (families_widget w))
                          (B0_widget w) (ms_widget w) of
               [] \<Rightarrow> Records []
             | r # rs \<Rightarrow> Series (c13_data r))"
  from overlay_C_shape [of e w ?v "s\<lparr>ax := ?c, xlabel := []\<rparr>"]
  consider "fst (curves_and_overlay_C e w s) = s\<lparr>ax := ?c @ [], xlabel := []\<rparr>"
    | x v where "fst (curves_and_overlay_C e w s) = s\<lparr>ax := ?c @ [Scatter x v ''Exp''], xlabel := []\<rparr>"
    unfolding curves_and_overlay_C_run [OF xs] by (auto simp add: xlabel_ax_update)
  then show ?thesis
  proof cases
    case 1
    show ?thesis unfolding 1 by (intro exI [of _ xs] exI [of _ "[]"]) (simp add: xs)
  next
    case 2
    show ?thesis unfolding 2
      by (intro exI [of _ xs] exI [of _ "[Scatter x v ''Exp'']"]) (simp add: xs)
  qed
qed

lemma markers_finish_zero_field:
  assumes "unit_btngrp w = int u" and "u < 4"
    and "B0_widget w = 0" and "gyromagnetic_widget w \<noteq> []"
  shows "py_bind (markers_N cs w) (\<lambda>_. finish w) s =
     (s\<lparr>messages := messages s @ [''Cannot divide by zero''],
        xlabel := (if radio2 w then unit_label_f ! u else unit_label_t ! u),
        ax := ax s @ [Text ''arXiv:2407.09411 [quant-ph]''],
        canvas := ax s @ [Text ''arXiv:2407.09411 [quant-ph]''],
        plot_ready := True\<rparr>, Inr ())"
  by (simp add: py_bind_def markers_N_zero_field [OF assms(3,4)] finish_run [OF assms(1,2)])

lemma markers_finish_no_label:
  assumes "unit_btngrp w = int u" and "u < 4" and "gyromagnetic_widget w = []"
  shows "py_bind (markers_N cs w) (\<lambda>_. finish w) s =
     (s\<lparr>xlabel := (if radio2 w then unit_label_f ! u else unit_label_t ! u),
        ax := ax s @ [Text ''arXiv:2407.09411 [quant-ph]''],
        canvas := ax s @ [Text ''arXiv:2407.09411 [quant-ph]''],
        plot_ready := True\<rparr>, Inr ())"
  by (simp add: py_bind_def markers_N_no_label [OF assms(3)] finish_run [OF assms(1,2)])

lemma markers_C_fun: "markers_C cs w = markers_N cs w"
  by (rule ext) (rule markers_C_N)

text \<open>
  Claim C2, as the code has it. In a request with a unit index in \<open>0..3\<close>, the marker
  block is reached when the statements before it complete, which they do whenever the
  overlay is disabled. Then, with the field at 0 and a label selected, the method
  executes the message box \<open>Cannot divide by zero\<close> once, draws no marker and completes,
  and the canvas shows what was on the axes before the marker block together with the
  reference text; with no label selected it executes no message box and draws no
  marker, whatever the field. When the overlay raises, the exception ends the method
  before the marker block: no message box is executed.
\<close>

theorem zero_field_render:
  assumes "unit_btngrp w = int u" and "u < 4"
  shows "(\<not> (expt_chkbox w \<and> expt_filename w \<noteq> []) \<longrightarrow>
            snd (curves_and_overlay_N e w s) = Inr () \<and> snd (curves_and_overlay_C e w s) = Inr ())
     \<and> (\<forall>s1. curves_and_overlay_N e w s = (s1, Inr ()) \<longrightarrow>
           messages s1 = messages s \<and> marker_xs (ax s1) = []
         \<and> (B0_widget w = 0 \<and> gyromagnetic_widget w \<noteq> [] \<longrightarrow>
              update_plot_N e w s =
                (s1\<lparr>messages := messages s @ [''Cannot divide by zero''],
                    xlabel := (if radio2 w then unit_label_f ! u else unit_label_t ! u),
                    ax := ax s1 @ [Text ''arXiv:2407.09411 [quant-ph]''],
                    canvas := ax s1 @ [Text ''arXiv:2407.09411 [quant-ph]''],
                    plot_ready := True\<rparr>, Inr ()))
         \<and> (gyromagnetic_widget w = [] \<longrightarrow>
              update_plot_N e w s =
                (s1\<lparr>xlabel := (if radio2 w then unit_label_f ! u else unit_label_t ! u),
                    ax := ax s1 @ [Text ''arXiv:2407.09411 [quant-ph]''],
                    canvas := ax s1 @ [Text ''arXiv:2407.09411 [quant-ph]''],
                    plot_ready := True\<rparr>, Inr ())))
     \<and> (\<forall>s1. curves_and_overlay_C e w s = (s1, Inr ()) \<longrightarrow>
           messages s1 = messages s \<and> marker_xs (ax s1) = []
         \<and> (B0_widget w = 0 \<and> gyromagnetic_widget w \<noteq> [] \<longrightarrow>
              update_plot_C e w s =
                (s1\<lparr>messages := messages s @ [''Cannot divide by zero''],
                    xlabel := (if radio2 w then unit_label_f ! u else unit_label_t ! u),
                    ax := ax s1 @ [Text ''arXiv:2407.09411 [quant-ph]''],
                    canvas := ax s1 @ [Text ''arXiv:2407.09411 [quant-ph]''],
                    plot_ready := True\<rparr>, Inr ()))
         \<and> (gyromagnetic_widget w = [] \<longrightarrow>
              update_plot_C e w s =
                (s1\<lparr>xlabel := (if radio2 w then unit_label_f ! u else unit_label_t ! u),
                    ax := ax s1 @ [Text ''arXiv:2407.09411 [quant-ph]''],
                    canvas := ax s1 @ [Text ''arXiv:2407.09411 [quant-ph]''],
                    plot_ready := True\<rparr>, Inr ())))
     \<and> (\<forall>s1 err. curves_and_overlay_N e w s = (s1, Inl err) \<longrightarrow>
           update_plot_N e w s = (s1, Inl err) \<and> messages s1 = messages s)
     \<and> (\<forall>s1 err. curves_and_overlay_C e w s = (s1, Inl err) \<longrightarrow>
           update_plot_C e w s = (s1, Inl err) \<and> messages s1 = messages s)"
proof -
  from x_axis_ok [OF assms] obtain xs where xs: "x_axis w s = Inr xs" by blast
  have disabled: "snd (curves_and_overlay_N e w s) = Inr () \<and> snd (curves_and_overlay_C e w s) = Inr ()"
    if "\<not> (expt_chkbox w \<and> expt_filename w \<noteq> [])"
    by (simp add: curves_and_overlay_N_run [OF xs] curves_and_overlay_C_run [OF xs]
        overlay_N_disabled [OF that] overlay_C_disabled [OF that])
  have frameN: "messages s1 = messages s \<and> marker_xs (ax s1) = []"
    if "curves_and_overlay_N e w s = (s1, r)" for s1 r
    using curves_and_overlay_N_frame [OF assms, where e = e and s = s] that by auto
  have frameC: "messages s1 = messages s \<and> marker_xs (ax s1) = []"
    if "curves_and_overlay_C e w s = (s1, r)" for s1 r
    using curves_and_overlay_C_frame [OF assms, where e = e and s = s] that
    by (auto simp add: marker_xs_append marker_xs_curves)
  have okN: "update_plot_N e w s = py_bind (markers_N (colors e) w) (\<lambda>_. finish w) s1"
    if "curves_and_overlay_N e w s = (s1, Inr ())" for s1
    by (simp add: update_plot_N_split py_bind_def [of "curves_and_overlay_N e w"] that)
  have okC: "update_plot_C e w s = py_bind (markers_N (colors e) w) (\<lambda>_. finish w) s1"
    if "curves_and_overlay_C e w s = (s1, Inr ())" for s1
    by (simp add: update_plot_C_split markers_C_fun py_bind_def [of "curves_and_overlay_C e w"] that)
  have errN: "update_plot_N e w s = (s1, Inl err)"
    if "curves_and_overlay_N e w s = (s1, Inl err)" for s1 err
    by (simp add: update_plot_N_split py_bind_def [of "curves_and_overlay_N e w"] that)
  have errC: "update_plot_C e w s = (s1, Inl err)"
    if "curves_and_overlay_C e w s = (s1, Inl err)" for s1 err
    by (simp add: update_plot_C_split py_bind_def [of "curves_and_overlay_C e w"] that)
  have N: "messages s1 = messages s \<and> marker_xs (ax s1) = []
         \<and> (B0_widget w = 0 \<and> gyromagnetic_widget w \<noteq> [] \<longrightarrow>
              update_plot_N e w s =
                (s1\<lparr>messages := messages s @ [''Cannot divide by zero''],
                    xlabel := (if radio2 w then unit_label_f ! u else unit_label_t ! u),
                    ax := ax s1 @ [Text ''arXiv:2407.09411 [quant-ph]''],
                    canvas := ax s1 @ [Text ''arXiv:2407.09411 [quant-ph]''],
                    plot_ready := True\<rparr>, Inr ()))
         \<and> (gyromagnetic_widget w = [] \<longrightarrow>
              update_plot_N e w s =
                (s1\<lparr>xlabel := (if radio2 w then unit_label_f ! u else unit_label_t ! u),
                    ax := ax s1 @ [Text ''arXiv:2407.09411 [quant-ph]''],
                    canvas := ax s1 @ [Text ''arXiv:2407.09411 [quant-ph]''],
                    plot_ready := True\<rparr>, Inr ()))"
    if run: "curves_and_overlay_N e w s = (s1, Inr ())" for s1
  proof -
    from frameN [OF run] have m: "messages s1 = messages s" and x: "marker_xs (ax s1) = []"
      by simp_all
    show ?thesis
      unfolding okN [OF run]
      using markers_finish_zero_field [OF assms, of "colors e" s1]
        markers_finish_no_label [OF assms, of "colors e" s1] m x
      by simp
  qed
  have C: "messages s1 = messages s \<and> marker_xs (ax s1) = []
         \<and> (B0_widget w = 0 \<and> gyromagnetic_widget w \<noteq> [] \<longrightarrow>
              update_plot_C e w s =
                (s1\<lparr>messages := messages s @ [''Cannot divide by zero''],
                    xlabel := (if radio2 w then unit_label_f ! u else unit_label_t ! u),
                    ax := ax s1 @ [Text ''arXiv:2407.09411 [quant-ph]''],
                    canvas := ax s1 @ [Text ''arXiv:2407.09411 [quant-ph]''],
                    plot_ready := True\<rparr>, Inr ()))
         \<and> (gyromagnetic_widget w = [] \<longrightarrow>
              update_plot_C e w s =
                (s1\<lparr>xlabel := (if radio2 w then unit_label_f ! u else unit_label_t ! u),
                    ax := ax s1 @ [Text ''arXiv:2407.09411 [quant-ph]''],
                    canvas := ax s1 @ [Text ''arXiv:2407.09411 [quant-ph]''],
                    plot_ready := True\<rparr>, Inr ()))"
    if run: "curves_and_overlay_C e w s = (s1, Inr ())" for s1
  proof -
    from frameC [OF run] have m: "messages s1 = messages s" and x: "marker_xs (ax s1) = []"
      by simp_all
    show ?thesis
      unfolding okC [OF run]
      using markers_finish_zero_field [OF assms, of "colors e" s1]
        markers_finish_no_label [OF assms, of "colors e" s1] m x
      by simp
  qed
  show ?thesis
    using disabled N C errN errC frameN frameC by blast
qed

theorem zero_field_render_witness:
  "unit_btngrp (demo_tab\<lparr>B0_widget := 0\<rparr>) = int 1 \<and> (1::nat) < 4
   \<and> \<not> (expt_chkbox (demo_tab\<lparr>B0_widget := 0\<rparr>) \<and> expt_filename (demo_tab\<lparr>B0_widget := 0\<rparr>) \<noteq> [])
   \<and> B0_widget (demo_tab\<lparr>B0_widget := 0\<rparr>) = 0
   \<and> gyromagnetic_widget (demo_tab\<lparr>B0_widget := 0\<rparr>) \<noteq> []
   \<and> snd (update_plot_N demo_env (demo_tab\<lparr>B0_widget := 0\<rparr>) demo_app) = Inr ()
   \<and> messages (fst (update_plot_N demo_env (demo_tab\<lparr>B0_widget := 0\<rparr>) demo_app))
       = [''Cannot divide by zero'']
   \<and> marker_xs (canvas (fst (update_plot_N demo_env (demo_tab\<lparr>B0_widget := 0\<rparr>) demo_app))) = []
   \<and> snd (update_plot_C demo_env (demo_tab\<lparr>B0_widget := 0\<rparr>) demo_app) = Inr ()
   \<and> messages (fst (update_plot_C demo_env (demo_tab\<lparr>B0_widget := 0\<rparr>) demo_app))
       = [''Cannot divide by zero'']
   \<and> marker_xs (canvas (fst (update_plot_C demo_env (demo_tab\<lparr>B0_widget := 0\<rparr>) demo_app))) = []"
proof -
  let ?w = "demo_tab\<lparr>B0_widget := 0\<rparr>"
  have h1: "unit_btngrp ?w = int 1" and h2: "(1::nat) < 4"
    and h3: "\<not> (expt_chkbox ?w \<and> expt_filename ?w \<noteq> [])"
    and h4: "B0_widget ?w = 0" and h5: "gyromagnetic_widget ?w \<noteq> []"
    by (simp_all add: demo_tab_def)
  have m: "messages demo_app = []" by (simp add: demo_app_def)
  note T = zero_field_render [OF h1 h2, of demo_env demo_app]
  obtain sN where sN: "curves_and_overlay_N demo_env ?w demo_app = (sN, Inr ())"
    using T h3 by (cases "curves_and_overlay_N demo_env ?w demo_app") auto
  obtain sC where sC: "curves_and_overlay_C demo_env ?w demo_app = (sC, Inr ())"
    using T h3 by (cases "curves_and_overlay_C demo_env ?w demo_app") auto
  from T sN h4 h5 have N: "marker_xs (ax sN) = []"
    "update_plot_N demo_env ?w demo_app =
       (sN\<lparr>messages := messages demo_app @ [''Cannot divide by zero''],
           xlabel := (if radio2 ?w then unit_label_f ! 1 else unit_label_t ! 1),
           ax := ax sN @ [Text ''arXiv:2407.09411 [quant-ph]''],
           canvas := ax sN @ [Text ''arXiv:2407.09411 [quant-ph]''],
           plot_ready := True\<rparr>, Inr ())"
    by blast+
  from T sC h4 h5 have C: "marker_xs (ax sC) = []"
    "update_plot_C demo_env ?w demo_app =
       (sC\<lparr>messages := messages demo_app @ [''Cannot divide by zero''],
           xlabel := (if radio2 ?w then unit_label_f ! 1 else unit_label_t ! 1),
           ax := ax sC @ [Text ''arXiv:2407.09411 [quant-ph]''],
           canvas := ax sC @ [Text ''arXiv:2407.09411 [quant-ph]''],
           plot_ready := True\<rparr>, Inr ())"
    by blast+
  have "snd (update_plot_N demo_env ?w demo_app) = Inr ()
   \<and> messages (fst (update_plot_N demo_env ?w demo_app)) = [''Cannot divide by zero'']
   \<and> marker_xs (canvas (fst (update_plot_N demo_env ?w demo_app))) = []
   \<and> snd (update_plot_C demo_env ?w demo_app) = Inr ()
   \<and> messages (fst (update_plot_C demo_env ?w demo_app)) = [''Cannot divide by zero'']
   \<and> marker_xs (canvas (fst (update_plot_C demo_env ?w demo_app))) = []"
    unfolding N(2) C(2) using N(1) C(1) by (simp add: m marker_xs_append)
  with h1 h2 h3 h4 h5 show ?thesis by blast
qed

text \<open>
  A request with the field at 0 and a label selected whose experimental file cannot be
  loaded: \<open>update_plot_N\<close> ends with the exception of \<open>np.loadtxt\<close> and no message box
  is executed.
\<close>

theorem zero_field_overlay_counterexample:
  "B0_widget (demo_tab\<lparr>B0_widget := 0, expt_chkbox := True, expt_filename := ''bad.txt''\<rparr>) = 0
   \<and> gyromagnetic_widget (demo_tab\<lparr>B0_widget := 0, expt_chkbox := True, expt_filename := ''bad.txt''\<rparr>)
       = [''<sup>1</sup>H'']
   \<and> loadtxt demo_env ''bad.txt'' = Inl ValueError
   \<and> update_plot_N demo_env
        (demo_tab\<lparr>B0_widget := 0, expt_chkbox := True, expt_filename := ''bad.txt''\<rparr>) demo_app
       = (demo_app\<lparr>ax := [Text no_data_text]\<rparr>, Inl ValueError)
   \<and> messages (fst (update_plot_N demo_env
        (demo_tab\<lparr>B0_widget := 0, expt_chkbox := True, expt_filename := ''bad.txt''\<rparr>) demo_app)) = []"
proof -
  let ?w = "demo_tab\<lparr>B0_widget := 0, expt_chkbox := True, expt_filename := ''bad.txt''\<rparr>"
  have x: "x_axis ?w demo_app = Inr (map (\<lambda>t. np_mul (Num t) (Num 1)) (tau demo_app))"
    by (simp add: x_axis_def demo_tab_def py_getitem_def unit_list_def py_let_def)
  have r: "read_where_N (N15_table demo_app) (M_widget ?w) (B0_widget ?w) (theta_widget ?w)
             (ms_widget ?w) = []"
    by (simp add: read_where_N_def demo_app_def demo_dataset_def demo_tab_def)
  have l: "loadtxt demo_env ''bad.txt'' = Inl ValueError" by (simp add: demo_env_def)
  have o: "overlay_N demo_env ?w XY8 s = (s, Inl ValueError)" for XY8 s
    by (simp add: overlay_N_def py_let_def ax_add_def demo_env_def demo_tab_def)
  have st: "demo_app\<lparr>ax := [Text no_data_text], xlabel := []\<rparr> = demo_app\<lparr>ax := [Text no_data_text]\<rparr>"
    by (simp add: demo_app_def)
  have run: "curves_and_overlay_N demo_env ?w demo_app
      = (demo_app\<lparr>ax := [Text no_data_text]\<rparr>, Inl ValueError)"
    by (simp only: curves_and_overlay_N_run [OF x] r list.case o st)
  have up: "update_plot_N demo_env ?w demo_app = (demo_app\<lparr>ax := [Text no_data_text]\<rparr>, Inl ValueError)"
    by (simp add: update_plot_N_split py_bind_def [of "curves_and_overlay_N demo_env ?w"] run)
  have m: "messages (demo_app\<lparr>ax := [Text no_data_text]\<rparr>) = []" by (simp add: demo_app_def)
  show ?thesis
    unfolding up using l m by (simp add: demo_tab_def)
qed








subsection \<open>The experimental overlay\<close>

lemma py_min_Min: "xs \<noteq> [] \<Longrightarrow> py_min xs = Inr (Min (set xs))"
proof (cases xs)
  case (Cons a l)
  then show ?thesis using Min.set_eq_fold [of a l] by (simp add: py_min_def)
qed simp

lemma np_max_Max: "xs \<noteq> [] \<Longrightarrow> np_max xs = Inr (Max (set xs))"
proof (cases xs)
  case (Cons a l)
  then show ?thesis using Max.set_eq_fold [of a l] by (simp add: np_max_def)
qed simp

lemma Max_shift:
  fixes m :: real
  assumes "ys \<noteq> []"
  shows "Max (set (map (\<lambda>v. v - m) ys)) = Max (set ys) - m"
proof -
  have "mono (\<lambda>v::real. v - m)" by (simp add: mono_def)
  from mono_Max_commute [OF this, of "set ys"] assms
  show ?thesis by simp
qed

lemma column_Arr2: "list_all (\<lambda>r. j < length r) rows \<Longrightarrow> column (Arr2 rows) j = Inr (map (\<lambda>r. r ! j) rows)"
  by (simp add: column_def)

lemma fold_np_fmax_Num: "fold np_fmax (map Num l) (Num a) = Num (fold max l a)"
  by (induction l arbitrary: a) (simp_all add: max.commute)

lemma np_max_f_Num: "xs \<noteq> [] \<Longrightarrow> np_max_f (map Num xs) = Inr (Num (Max (set xs)))"
proof (cases xs)
  case (Cons a l)
  then show ?thesis
    using Max.set_eq_fold [of a l] by (simp add: np_max_f_def fold_np_fmax_Num)
qed simp


text \<open>
  The overlay of a loaded array with at least two columns against a reference series:
  the scatter of the first column against the rounded values.
\<close>

lemma overlay_N_run:
  assumes "expt_chkbox w" and "expt_filename w \<noteq> []"
    and "loadtxt e (expt_filename w) = Inr (Arr2 rows)"
    and "rows \<noteq> []" and "list_all (\<lambda>r. 1 < length r) rows"
    and "np_max ref = Inr peak"
    and "np_max_f (map (\<lambda>r. rounded (Num (r ! 1 - Min (set (map (\<lambda>r. r ! 1) rows))))) rows) = Inr maxp"
  shows "overlay_N e w (Series ref) s =
     (s\<lparr>ax := ax s @ [Scatter (map (\<lambda>r. r ! 0) rows)
         (map (\<lambda>r. rounded (np_div (rounded (np_mul
                  (rounded (Num (r ! 1 - Min (set (map (\<lambda>r. r ! 1) rows))))) (Num peak))) maxp)) rows)
         ''Exp'']\<rparr>, Inr ())"
proof -
  let ?y = "map (\<lambda>r. r ! 1) rows"
  have c1: "column (Arr2 rows) 1 = Inr ?y"
    using assms(5) by (simp add: column_Arr2)
  have "list_all (\<lambda>r. 0 < length r) rows"
    using assms(5) by (induction rows) auto
  then have c0: "column (Arr2 rows) 0 = Inr (map (\<lambda>r. r ! 0) rows)"
    by (simp add: column_Arr2)
  have y: "?y \<noteq> []" using assms(4) by simp
  have m: "py_min ?y = Inr (Min (set ?y))" by (rule py_min_Min [OF y])
  have p: "map (\<lambda>v. rounded (Num (v - Min (set ?y)))) ?y
      = map (\<lambda>r. rounded (Num (r ! 1 - Min (set ?y)))) rows"
    by (simp add: comp_def)
  show ?thesis
    by (simp only: overlay_N_def assms(1,2,3,6,7) c1 c0 m p py_let_def np_max_xy8_def ax_add_def
        Let_def sum.case xy8.case simp_thms if_True map_map comp_def)
qed

lemma overlay_C_as_N: "overlay_C e w (Some (Series ref)) s = overlay_N e w (Series ref) s"
  by (simp add: overlay_C_def overlay_N_def np_max_xy8_def)

lemma np_max_replicate: "0 < n \<Longrightarrow> np_max (replicate n c) = Inr c"
  using np_max_Max [of "replicate n c"] by simp

text \<open>
  The three roundings of one overlay value. With the range \<open>D\<close> of the file's signal
  and the peak of the reference between \<open>2^-500\<close> and \<open>2^500\<close>, nothing overflows,
  the values grow with the signal, and the value at the largest signal is within
  \<open>peak * 2^-51\<close> of the peak.
\<close>

lemma overlay_float_core:
  fixes d D peak :: real
  assumes "0 \<le> d" and "d \<le> D" and "1 / 2 ^ 500 \<le> D" and "D \<le> 2 ^ 500"
    and "1 / 2 ^ 500 \<le> peak" and "peak \<le> 2 ^ 500"
  shows "float64 d = Num (fl64 d)"
    and "0 < fl64 D"
    and "float64 (fl64 d * peak) = Num (fl64 (fl64 d * peak))"
    and "float64 (fl64 (fl64 d * peak) / fl64 D) = Num (fl64 (fl64 (fl64 d * peak) / fl64 D))"
    and "0 \<le> fl64 (fl64 (fl64 d * peak) / fl64 D)"
    and "fl64 (fl64 (fl64 d * peak) / fl64 D) \<le> fl64 (fl64 (fl64 D * peak) / fl64 D)"
    and "\<bar>fl64 (fl64 (fl64 D * peak) / fl64 D) - peak\<bar> \<le> peak / 2 ^ 51"
proof -
  define u :: real where "u = 1 / 2 ^ 53"
  define c :: real where "c = 2 ^ 500"
  define P where "P = fl64 D"
  have c: "0 < c" "(2 * c) * c = 2 ^ 1001" "(1 / c / 2) * (1 / c) = 1 / 2 ^ 1001"
    "c \<le> 2 ^ 1001" "1 / 2 ^ 1001 \<le> 1 / c" "2 * c \<le> 2 ^ 1001" "1 / 2 ^ 1001 \<le> 1 / c / 2"
    by (simp_all add: c_def)
  have u: "0 \<le> u" "u \<le> 1 / 2" by (simp_all add: u_def)
  have D: "1 / c \<le> D" "D \<le> c" and pk: "1 / c \<le> peak" "peak \<le> c"
    using assms(3-6) by (simp_all only: c_def)
  have cinv: "0 < 1 / c" using c(1) by simp
  have D0: "0 < D" and pk0: "0 < peak" using D(1) pk(1) cinv by linarith+
  have top: "(2::real) ^ 1001 \<le> pow2 1023" and bot: "pow2 (- 1022) \<le> 1 / 2 ^ 1001"
    by (rule pow2_numeral_bounds)+
  have Dhi: "D \<le> pow2 1023" using D(2) c(4) top by linarith
  have Dlo: "pow2 (- 1022) \<le> D" using D(1) c(5) bot by linarith
  have dhi: "d \<le> pow2 1023" using assms(2) Dhi by linarith
  show 1: "float64 d = Num (fl64 d)" by (rule fl64_Num [OF assms(1) dhi])
  have "\<bar>P - D\<bar> \<le> D / 2 ^ 53" unfolding P_def by (rule fl64_err [OF Dlo Dhi])
  then have eP: "\<bar>P - D\<bar> \<le> D * u" by (simp add: u_def)
  have "D * u \<le> D * (1 / 2)" using u(2) D0 by (intro mult_left_mono) simp_all
  with eP have Plo: "D / 2 \<le> P" and Phi: "P \<le> 2 * D" by linarith+
  from Plo D0 have P0: "0 < P" by linarith
  then show "0 < fl64 D" by (simp only: P_def)
  have p0: "0 \<le> fl64 d" using fl64_range [OF assms(1) dhi] by simp
  have pP: "fl64 d \<le> P" unfolding P_def by (rule fl64_mono [OF assms(1,2) Dhi])
  have x1: "0 \<le> fl64 d * peak" using p0 pk0 by simp
  have x1P: "fl64 d * peak \<le> P * peak" using pP pk0 by (intro mult_right_mono) simp_all
  have "P * peak \<le> (2 * c) * c"
    using Phi D(2) pk(2) P0 pk0 c(1) by (intro mult_mono) simp_all
  then have PPhi': "P * peak \<le> 2 ^ 1001" by (simp only: c(2))
  then have PPhi: "P * peak \<le> pow2 1023" using top by linarith
  have "(1 / c / 2) * (1 / c) \<le> P * peak"
    using Plo D(1) pk(1) cinv P0 by (intro mult_mono) simp_all
  then have "1 / 2 ^ 1001 \<le> P * peak" by (simp only: c(3))
  then have PPlo: "pow2 (- 1022) \<le> P * peak" using bot by linarith
  have x1hi: "fl64 d * peak \<le> pow2 1023" using x1P PPhi by linarith
  show 3: "float64 (fl64 d * peak) = Num (fl64 (fl64 d * peak))" by (rule fl64_Num [OF x1 x1hi])
  define q where "q = fl64 (fl64 d * peak)"
  define Q where "Q = fl64 (P * peak)"
  have q0: "0 \<le> q" unfolding q_def using fl64_range [OF x1 x1hi] by simp
  have qQ: "q \<le> Q" unfolding q_def Q_def by (rule fl64_mono [OF x1 x1P PPhi])
  have "\<bar>Q - P * peak\<bar> \<le> P * peak / 2 ^ 53" unfolding Q_def by (rule fl64_err [OF PPlo PPhi])
  then have eQ: "\<bar>Q - P * peak\<bar> \<le> P * (peak * u)" by (simp add: u_def)
  have "Q / P - peak = (Q - P * peak) / P" using P0 by (simp add: field_simps)
  then have "\<bar>Q / P - peak\<bar> = \<bar>Q - P * peak\<bar> / P" using P0 by (simp add: abs_divide)
  also have "\<dots> \<le> P * (peak * u) / P" using eQ P0 by (intro divide_right_mono) simp_all
  also have "\<dots> = peak * u" using P0 by simp
  finally have eR: "\<bar>Q / P - peak\<bar> \<le> peak * u" .
  have pu: "peak * u \<le> peak * (1 / 2)" using u(2) pk0 by (intro mult_left_mono) simp_all
  from eR pu have Rlo: "peak / 2 \<le> Q / P" and Rhi: "Q / P \<le> 2 * peak" by linarith+
  have x2: "0 \<le> q / P" using q0 P0 by simp
  have x2R: "q / P \<le> Q / P" using qQ P0 by (intro divide_right_mono) simp_all
  have "2 * peak \<le> 2 * c" using pk(2) by simp
  with Rhi top c(6) have Rtop: "Q / P \<le> pow2 1023" by linarith
  have "1 / c / 2 \<le> peak / 2" using pk(1) by simp
  with Rlo bot c(7) have Rbot: "pow2 (- 1022) \<le> Q / P" by linarith
  have x2hi: "q / P \<le> pow2 1023" using x2R Rtop by linarith
  show "float64 (fl64 (fl64 d * peak) / fl64 D) = Num (fl64 (fl64 (fl64 d * peak) / fl64 D))"
    using fl64_Num [OF x2 x2hi] by (simp only: q_def P_def)
  show "0 \<le> fl64 (fl64 (fl64 d * peak) / fl64 D)"
    using fl64_range [OF x2 x2hi] by (simp only: q_def P_def)
  show "fl64 (fl64 (fl64 d * peak) / fl64 D) \<le> fl64 (fl64 (fl64 D * peak) / fl64 D)"
    using fl64_mono [OF x2 x2R Rtop] by (simp only: q_def Q_def P_def)
  have "\<bar>fl64 (Q / P) - Q / P\<bar> \<le> Q / P / 2 ^ 53" by (rule fl64_err [OF Rbot Rtop])
  then have eG: "\<bar>fl64 (Q / P) - Q / P\<bar> \<le> Q / P * u" by (simp add: u_def)
  have "Q / P * u \<le> 2 * peak * u" using Rhi u(1) by (intro mult_right_mono) simp_all
  with eG eR have "\<bar>fl64 (Q / P) - peak\<bar> \<le> 3 * (peak * u)" by linarith
  also have "\<dots> \<le> peak / 2 ^ 51" using pk0 by (simp add: u_def)
  finally show "\<bar>fl64 (fl64 (fl64 D * peak) / fl64 D) - peak\<bar> \<le> peak / 2 ^ 51"
    by (simp only: Q_def P_def)
qed

text \<open>
  Claim C10. For a loaded two-column array whose second column is constant, with the
  overlay enabled and a series as the reference, the minimum is that constant, the
  maximum of the baseline-corrected signal is 0, and both methods complete without an
  exception and scatter \<open>NaN\<close> for every point: the quotient is \<open>0 / 0\<close>.
\<close>

theorem constant_signal_gives_nan:
  assumes "expt_chkbox w" and "expt_filename w \<noteq> []"
    and "loadtxt e (expt_filename w) = Inr (Arr2 rows)"
    and "rows \<noteq> []" and "\<forall>r\<in>set rows. length r = 2 \<and> r ! 1 = c"
    and "ref \<noteq> []"
  shows "py_min (map (\<lambda>r. r ! 1) rows) = Inr c
     \<and> np_max (map (\<lambda>v. v - c) (map (\<lambda>r. r ! 1) rows)) = Inr 0
     \<and> overlay_N e w (Series ref) s =
         (s\<lparr>ax := ax s @ [Scatter (map (\<lambda>r. r ! 0) rows) (replicate (length rows) NaN) ''Exp'']\<rparr>,
          Inr ())
     \<and> overlay_C e w (Some (Series ref)) s =
         (s\<lparr>ax := ax s @ [Scatter (map (\<lambda>r. r ! 0) rows) (replicate (length rows) NaN) ''Exp'']\<rparr>,
          Inr ())"
proof -
  let ?y = "map (\<lambda>r. r ! 1) rows"
  have y: "?y = replicate (length rows) c"
    using assms(5) by (simp add: map_replicate_const [symmetric])
  have sety: "set ?y = {c}"
    using assms(4) by (simp only: y) simp
  have cols: "list_all (\<lambda>r. 1 < length r) rows"
    using assms(5) by (simp add: list_all_iff)
  have peak: "np_max ref = Inr (Max (set ref))"
    by (rule np_max_Max [OF assms(6)])
  have mn: "py_min ?y = Inr c"
    using py_min_Min [of ?y] assms(4) sety by simp
  have mx: "np_max (map (\<lambda>v. v - c) ?y) = Inr 0"
    using np_max_Max [of "map (\<lambda>v. v - c) ?y"] Max_shift [of ?y c] assms(4) sety by simp
  have p: "map (\<lambda>r. rounded (Num (r ! 1 - Min (set ?y)))) rows = map Num (replicate (length rows) 0)"
    using assms(5) by (simp only: sety) (simp add: map_replicate_const [symmetric] rounded_def fl64_zero)
  have "np_max_f (map Num (replicate (length rows) (0 :: real))) = Inr (Num 0)"
    using np_max_f_Num [of "replicate (length rows) (0 :: real)"] assms(4) by simp
  then have maxp: "np_max_f (map (\<lambda>r. rounded (Num (r ! 1 - Min (set ?y)))) rows) = Inr (Num 0)"
    by (simp only: p)
  have ys: "map (\<lambda>r. rounded (np_div (rounded (np_mul (rounded (Num (r ! 1 - Min (set ?y))))
                         (Num (Max (set ref))))) (Num 0))) rows
            = replicate (length rows) NaN"
    using assms(5) by (simp only: sety) (simp add: map_replicate_const [symmetric] rounded_def fl64_zero)
  have N: "overlay_N e w (Series ref) s =
         (s\<lparr>ax := ax s @ [Scatter (map (\<lambda>r. r ! 0) rows) (replicate (length rows) NaN) ''Exp'']\<rparr>,
          Inr ())"
    using overlay_N_run [OF assms(1,2,3,4) cols peak maxp, of s] by (simp only: ys)
  show ?thesis
    using mn mx N by (simp only: overlay_C_as_N)
qed

theorem constant_signal_gives_nan_witness:
  "expt_chkbox (demo_tab\<lparr>expt_chkbox := True, expt_filename := ''flat.txt''\<rparr>)
   \<and> expt_filename (demo_tab\<lparr>expt_chkbox := True, expt_filename := ''flat.txt''\<rparr>) \<noteq> []
   \<and> loadtxt demo_env ''flat.txt'' = Inr (Arr2 [[0, 1], [1, 1]])
   \<and> length [0, 1 :: real] = 2 \<and> [0, 1 :: real] ! 1 = 1
   \<and> length [1, 1 :: real] = 2 \<and> [1, 1 :: real] ! 1 = 1
   \<and> overlay_N demo_env (demo_tab\<lparr>expt_chkbox := True, expt_filename := ''flat.txt''\<rparr>)
         (Series (replicate 1000 (1 / 2))) demo_app
       = (demo_app\<lparr>ax := [Scatter [0, 1] [NaN, NaN] ''Exp'']\<rparr>, Inr ())"
proof -
  let ?w = "demo_tab\<lparr>expt_chkbox := True, expt_filename := ''flat.txt''\<rparr>"
  have h1: "expt_chkbox ?w" and h2: "expt_filename ?w \<noteq> []"
    and h3: "loadtxt demo_env (expt_filename ?w) = Inr (Arr2 [[0, 1], [1, 1]])"
    and h4: "[[0, 1], [1, 1 :: real]] \<noteq> []"
    and h5: "\<forall>r\<in>set [[0, 1], [1, 1 :: real]]. length r = 2 \<and> r ! 1 = 1"
    and h6: "replicate 1000 (1 / 2 :: real) \<noteq> []"
    by (simp_all add: demo_tab_def demo_env_def)
  have a: "ax demo_app = []" by (simp add: demo_app_def)
  from constant_signal_gives_nan [OF h1 h2 h3 h4 h5 h6, of demo_app]
  have "overlay_N demo_env ?w (Series (replicate 1000 (1 / 2))) demo_app
       = (demo_app\<lparr>ax := [Scatter [0, 1] [NaN, NaN] ''Exp'']\<rparr>, Inr ())"
    by (simp add: a)
  with h1 h2 h3 h5 show ?thesis by (simp add: demo_tab_def)
qed

lemma fl64_one: "fl64 1 = 1" "fl64 (1 / 2) = 1 / 2"
  by (code_simp, code_simp)

text \<open>
  Claim C4, as the code has it. For a loaded two-column array and a reference series,
  where the range \<open>max y - min y\<close> of the file's second column and the peak of the
  reference lie between \<open>2^-500\<close> and \<open>2^500\<close>, both methods scatter, for every row, the
  \<open>float64\<close> value of \<open>(y - min y) * peak / max p\<close> with each of the three operations
  rounded; \<open>max p\<close> is the rounded range. The minimum of these values is exactly 0 and
  their maximum is within \<open>peak * 2^-51\<close> of the peak. For a constant second column the
  values are \<open>NaN\<close> instead.
\<close>

theorem overlay_rescaled_range:
  assumes "expt_chkbox w" and "expt_filename w \<noteq> []"
    and "loadtxt e (expt_filename w) = Inr (Arr2 rows)"
    and "\<forall>r\<in>set rows. length r = 2"
    and "py_min (map (\<lambda>r. r ! 1) rows) = Inr m" and "np_max (map (\<lambda>r. r ! 1) rows) = Inr M"
    and "1 / 2 ^ 500 \<le> M - m" and "M - m \<le> 2 ^ 500"
    and "np_max ref = Inr peak" and "1 / 2 ^ 500 \<le> peak" and "peak \<le> 2 ^ 500"
  shows "\<exists>ys top.
       ys = map (\<lambda>r. fl64 (fl64 (fl64 (r ! 1 - m) * peak) / fl64 (M - m))) rows
     \<and> np_max_f (map (\<lambda>r. rounded (Num (r ! 1 - m))) rows) = Inr (Num (fl64 (M - m)))
     \<and> overlay_N e w (Series ref) s =
         (s\<lparr>ax := ax s @ [Scatter (map (\<lambda>r. r ! 0) rows) (map Num ys) ''Exp'']\<rparr>, Inr ())
     \<and> overlay_C e w (Some (Series ref)) s =
         (s\<lparr>ax := ax s @ [Scatter (map (\<lambda>r. r ! 0) rows) (map Num ys) ''Exp'']\<rparr>, Inr ())
     \<and> py_min ys = Inr 0 \<and> np_max ys = Inr top \<and> \<bar>top - peak\<bar> \<le> peak / 2 ^ 51"
proof -
  let ?y = "map (\<lambda>r. r ! 1) rows"
  let ?D = "M - m"
  let ?g = "\<lambda>r. fl64 (fl64 (fl64 (r ! 1 - m) * peak) / fl64 ?D)"
  let ?ys = "map ?g rows"
  let ?top = "fl64 (fl64 (fl64 ?D * peak) / fl64 ?D)"
  from assms(5) have rows: "rows \<noteq> []" by (auto simp add: py_min_def)
  then have y: "?y \<noteq> []" by simp
  have cols: "list_all (\<lambda>r. 1 < length r) rows"
    using assms(4) by (simp add: list_all_iff)
  have m: "m = Min (set ?y)" using py_min_Min [OF y] assms(5) by simp
  have M: "M = Max (set ?y)" using np_max_Max [OF y] assms(6) by simp
  have "Min (set ?y) \<in> set ?y" using y by (intro Min_in) simp_all
  then obtain rm where rm: "rm \<in> set rows" "rm ! 1 = m" by (auto simp add: m)
  have "Max (set ?y) \<in> set ?y" using y by (intro Max_in) simp_all
  then obtain rM where rM: "rM \<in> set rows" "rM ! 1 = M" by (auto simp add: M)
  have rng: "0 \<le> r ! 1 - m \<and> r ! 1 - m \<le> ?D" if "r \<in> set rows" for r
  proof -
    from that have "r ! 1 \<in> set ?y" by simp
    then have "Min (set ?y) \<le> r ! 1" "r ! 1 \<le> Max (set ?y)" by simp_all
    then show ?thesis by (simp add: m M)
  qed
  note core = overlay_float_core [OF _ _ assms(7,8,10,11)]
  have P0: "0 < fl64 ?D" using core(2) [of 0] assms(7) by simp
  have D0: "0 \<le> ?D" using rng [OF rm(1)] by (simp add: rm(2))
  have p: "map (\<lambda>r. rounded (Num (r ! 1 - m))) rows = map Num (map (\<lambda>r. fl64 (r ! 1 - m)) rows)"
    using rng core(1) by (simp add: rounded_def)
  have "Max (set (map (\<lambda>r. fl64 (r ! 1 - m)) rows)) = fl64 ?D"
  proof (rule Max_eqI)
    show "finite (set (map (\<lambda>r. fl64 (r ! 1 - m)) rows))" by simp
    show "v \<le> fl64 ?D" if "v \<in> set (map (\<lambda>r. fl64 (r ! 1 - m)) rows)" for v
    proof -
      from that obtain r where r: "r \<in> set rows" "v = fl64 (r ! 1 - m)" by auto
      have "?D \<le> pow2 1023"
        using assms(8) pow2_numeral_bounds(2) by (simp add: order_trans [OF _ pow2_numeral_bounds(2)])
      with rng [OF r(1)] show ?thesis unfolding r(2) by (intro fl64_mono) simp_all
    qed
    show "fl64 ?D \<in> set (map (\<lambda>r. fl64 (r ! 1 - m)) rows)"
      using rM by force
  qed
  then have maxp: "np_max_f (map (\<lambda>r. rounded (Num (r ! 1 - m))) rows) = Inr (Num (fl64 ?D))"
    using np_max_f_Num [of "map (\<lambda>r. fl64 (r ! 1 - m)) rows"] rows by (simp only: p) simp
  have elems: "map (\<lambda>r. rounded (np_div (rounded (np_mul (rounded (Num (r ! 1 - m))) (Num peak)))
                      (Num (fl64 ?D)))) rows = map Num ?ys"
  proof (rule map_cong [OF refl, of rows, unfolded map_map [symmetric], THEN trans])
    show "map (\<lambda>r. Num (?g r)) rows = map Num ?ys" by simp
  next
    fix r assume r: "r \<in> set rows"
    from rng [OF r] have d: "0 \<le> r ! 1 - m" "r ! 1 - m \<le> ?D" by simp_all
    show "rounded (np_div (rounded (np_mul (rounded (Num (r ! 1 - m))) (Num peak))) (Num (fl64 ?D)))
        = Num (?g r)"
      using core(1) [OF d] core(3) [OF d] core(4) [OF d] P0 by (simp add: rounded_def)
  qed
  have N: "overlay_N e w (Series ref) s =
         (s\<lparr>ax := ax s @ [Scatter (map (\<lambda>r. r ! 0) rows) (map Num ?ys) ''Exp'']\<rparr>, Inr ())"
    using overlay_N_run [OF assms(1,2,3) rows cols assms(9) maxp [unfolded m], of s]
    by (simp only: elems m [symmetric])
  have ysne: "?ys \<noteq> []" using rows by simp
  have "Min (set ?ys) = 0"
  proof (rule Min_eqI)
    show "finite (set ?ys)" by simp
    show "0 \<le> v" if "v \<in> set ?ys" for v
    proof -
      from that obtain r where r: "r \<in> set rows" "v = ?g r" by auto
      from rng [OF r(1)] have d: "0 \<le> r ! 1 - m" "r ! 1 - m \<le> ?D" by simp_all
      show ?thesis unfolding r(2) by (rule core(5) [OF d])
    qed
    have "?g rm = 0" unfolding rm(2) by (simp add: fl64_zero)
    with rm(1) show "0 \<in> set ?ys" by force
  qed
  then have min0: "py_min ?ys = Inr 0" using py_min_Min [OF ysne] by simp
  have "Max (set ?ys) = ?top"
  proof (rule Max_eqI)
    show "finite (set ?ys)" by simp
    show "v \<le> ?top" if "v \<in> set ?ys" for v
    proof -
      from that obtain r where r: "r \<in> set rows" "v = ?g r" by auto
      from rng [OF r(1)] have d: "0 \<le> r ! 1 - m" "r ! 1 - m \<le> ?D" by simp_all
      show ?thesis unfolding r(2) by (rule core(6) [OF d])
    qed
    have "?g rM = ?top" unfolding rM(2) by simp
    with rM(1) show "?top \<in> set ?ys" by force
  qed
  then have maxt: "np_max ?ys = Inr ?top" using np_max_Max [OF ysne] by simp
  have err: "\<bar>?top - peak\<bar> \<le> peak / 2 ^ 51" by (rule core(7) [OF D0 order_refl])
  show ?thesis
    using maxp N min0 maxt err
    by (intro exI [of _ ?ys] exI [of _ ?top]) (simp only: overlay_C_as_N simp_thms)
qed

theorem overlay_rescaled_range_witness:
  "expt_chkbox (demo_tab\<lparr>expt_chkbox := True, expt_filename := ''exp.txt''\<rparr>)
   \<and> expt_filename (demo_tab\<lparr>expt_chkbox := True, expt_filename := ''exp.txt''\<rparr>) \<noteq> []
   \<and> loadtxt demo_env ''exp.txt'' = Inr (Arr2 [[0, 0], [1, 1]])
   \<and> length [0, 0 :: real] = 2 \<and> length [1, 1 :: real] = 2
   \<and> py_min (map (\<lambda>r. r ! 1) [[0, 0], [1, 1 :: real]]) = Inr 0
   \<and> np_max (map (\<lambda>r. r ! 1) [[0, 0], [1, 1 :: real]]) = Inr 1
   \<and> (1 :: real) / 2 ^ 500 \<le> 1 - 0 \<and> (1 :: real) - 0 \<le> 2 ^ 500
   \<and> np_max (replicate 1000 (1 / 2)) = Inr (1 / 2)
   \<and> (1 :: real) / 2 ^ 500 \<le> 1 / 2 \<and> (1 :: real) / 2 \<le> 2 ^ 500
   \<and> overlay_N demo_env (demo_tab\<lparr>expt_chkbox := True, expt_filename := ''exp.txt''\<rparr>)
         (Series (replicate 1000 (1 / 2))) demo_app
       = (demo_app\<lparr>ax := [Scatter [0, 1] [Num 0, Num (1 / 2)] ''Exp'']\<rparr>, Inr ())
   \<and> py_min [0, 1 / 2 :: real] = Inr 0 \<and> np_max [0, 1 / 2 :: real] = Inr (1 / 2)
   \<and> \<bar>(1 :: real) / 2 - 1 / 2\<bar> \<le> 1 / 2 / 2 ^ 51"
proof -
  let ?w = "demo_tab\<lparr>expt_chkbox := True, expt_filename := ''exp.txt''\<rparr>"
  let ?rows = "[[0, 0], [1, 1 :: real]]"
  have h1: "expt_chkbox ?w" and h2: "expt_filename ?w \<noteq> []"
    and h3: "loadtxt demo_env (expt_filename ?w) = Inr (Arr2 ?rows)"
    and h4: "\<forall>r\<in>set ?rows. length r = 2"
    by (simp_all add: demo_tab_def demo_env_def)
  have h5: "py_min (map (\<lambda>r. r ! 1) ?rows) = Inr 0"
    and h6: "np_max (map (\<lambda>r. r ! 1) ?rows) = Inr 1"
    by (simp_all add: py_min_def np_max_def)
  have h7: "(1 :: real) / 2 ^ 500 \<le> 1 - 0" and h8: "(1 :: real) - 0 \<le> 2 ^ 500"
    and h10: "(1 :: real) / 2 ^ 500 \<le> 1 / 2" and h11: "(1 :: real) / 2 \<le> 2 ^ 500"
    by simp_all
  have h9: "np_max (replicate 1000 (1 / 2)) = Inr (1 / 2)"
    by (simp add: np_max_replicate)
  have a: "ax demo_app = []" by (simp add: demo_app_def)
  have g: "map (\<lambda>r. fl64 (fl64 (fl64 (r ! 1 - 0) * (1 / 2)) / fl64 (1 - 0))) ?rows = [0, 1 / 2]"
    by (simp add: fl64_zero fl64_one)
  from overlay_rescaled_range [OF h1 h2 h3 h4 h5 h6 h7 h8 h9 h10 h11, of demo_app]
  obtain ys top
    where ys: "ys = map (\<lambda>r. fl64 (fl64 (fl64 (r ! 1 - 0) * (1 / 2)) / fl64 (1 - 0))) ?rows"
    and N: "overlay_N demo_env ?w (Series (replicate 1000 (1 / 2))) demo_app =
         (demo_app\<lparr>ax := ax demo_app @ [Scatter (map (\<lambda>r. r ! 0) ?rows) (map Num ys) ''Exp'']\<rparr>, Inr ())"
    and r: "py_min ys = Inr 0" "np_max ys = Inr top" "\<bar>top - 1 / 2\<bar> \<le> 1 / 2 / 2 ^ 51"
    by blast
  have ys': "ys = [0, 1 / 2]" by (simp only: ys g)
  from r(2) have top: "top = 1 / 2" by (simp add: ys' np_max_def)
  from N r have "overlay_N demo_env ?w (Series (replicate 1000 (1 / 2))) demo_app
       = (demo_app\<lparr>ax := [Scatter [0, 1] [Num 0, Num (1 / 2)] ''Exp'']\<rparr>, Inr ())
     \<and> py_min [0, 1 / 2 :: real] = Inr 0 \<and> np_max [0, 1 / 2 :: real] = Inr (1 / 2)
     \<and> \<bar>(1 :: real) / 2 - 1 / 2\<bar> \<le> 1 / 2 / 2 ^ 51"
    unfolding ys' top a by simp
  with h1 h2 h3 h5 h6 h7 h8 h9 h10 h11 show ?thesis by (simp add: demo_tab_def)
qed

text \<open>
  A file of two rows with the same y value, against a reference series with peak 1: the
  overlay is drawn without an exception and both of its values are \<open>NaN\<close>, neither 0
  nor 1.
\<close>

theorem overlay_constant_counterexample:
  "loadtxt demo_env ''flat.txt'' = Inr (Arr2 [[0, 1], [1, 1]])
   \<and> np_max (replicate 1000 1) = Inr 1
   \<and> overlay_C demo_env (demo_tab\<lparr>expt_chkbox := True, expt_filename := ''flat.txt''\<rparr>)
         (Some (Series (replicate 1000 1))) demo_app
       = (demo_app\<lparr>ax := [Scatter [0, 1] [NaN, NaN] ''Exp'']\<rparr>, Inr ())
   \<and> NaN \<noteq> Num 0 \<and> NaN \<noteq> Num 1"
proof -
  have ref: "np_max (replicate 1000 (1 :: real)) = Inr 1"
    by (simp add: np_max_replicate)
  have mn: "py_min [1, 1 :: real] = Inr 1"
    and mx: "np_max_f [Num 0, Num 0] = Inr (Num 0)"
    by (simp_all add: py_min_def np_max_f_def)
  show ?thesis
    by (simp add: overlay_C_def demo_tab_def demo_env_def demo_app_def ref mn mx
        np_max_xy8_def py_let_def column_def ax_add_def Let_def rounded_def fl64_zero)
qed

subsection \<open>The reference curve of the overlay\<close>





lemma demo_read_A:
  "read_where_C (C13_table demo_app) 8 ''A'' 5 (- 1)
     = [\<lparr>c13_ms = - 1, c13_order = 8, c13_field = 5, c13_fam = ''A'', c13_data = replicate 1000 1\<rparr>]"
  by (simp add: read_where_C_def demo_app_def demo_dataset_def)

lemma demo_read_B:
  "read_where_C (C13_table demo_app) 8 ''B'' 5 (- 1)
     = [\<lparr>c13_ms = - 1, c13_order = 8, c13_field = 5, c13_fam = ''B'', c13_data = replicate 1000 (1 / 2)\<rparr>]"
  by (simp add: read_where_C_def demo_app_def demo_dataset_def)




subsection \<open>An experimental file that cannot be loaded\<close>

lemma overlay_N_load_error:
  "expt_chkbox w \<Longrightarrow> expt_filename w \<noteq> [] \<Longrightarrow> loadtxt e (expt_filename w) = Inl err
     \<Longrightarrow> overlay_N e w XY8 s = (s, Inl err)"
  by (simp add: overlay_N_def py_let_def ax_add_def)

lemma overlay_C_load_error:
  "expt_chkbox w \<Longrightarrow> expt_filename w \<noteq> [] \<Longrightarrow> loadtxt e (expt_filename w) = Inl err
     \<Longrightarrow> overlay_C e w XY8 s = (s, Inl err)"
  by (simp add: overlay_C_def py_let_def ax_add_def)


text \<open>
  Claim C5, as the code has it. When the overlay is enabled, a file is set and
  \<open>np.loadtxt\<close> raises on it, the exception leaves \<open>update_plot_N\<close> and
  \<open>update_plot_C\<close> uncaught (the unit index being one of \<open>0..3\<close>). The axes hold the
  simulated curves and text boxes drawn before, but the rest of the method is not
  executed: no marker is drawn, \<open>canvas.draw()\<close> is not called and \<open>plot_ready\<close> keeps
  its value.
\<close>

theorem unparsable_overlay_aborts_render:
  assumes "expt_chkbox w" and "expt_filename w \<noteq> []"
    and "loadtxt e (expt_filename w) = Inl err"
    and "unit_btngrp w = int u" and "u < 4"
  shows "\<exists>xs sN sC. x_axis w s = Inr xs
     \<and> update_plot_N e w s = (sN, Inl err) \<and> update_plot_C e w s = (sC, Inl err)
     \<and> sN = s\<lparr>ax := [case read_where_N (N15_table s) (M_widget w) (B0_widget w) (theta_widget w)
                              (ms_widget w) of
                        [] \<Rightarrow> Text no_data_text
                      | r # rs \<Rightarrow> Plot xs (n15_data r) ''Sim''], xlabel := []\<rparr>
     \<and> sC = s\<lparr>ax := map (\<lambda>fam.
                     case read_where_C (C13_table s) (M_widget w) fam (B0_widget w) (ms_widget w) of
                       [] \<Rightarrow> Text no_data_text
                     | r # rs \<Rightarrow> Plot xs (c13_data r) fam) (families_widget w), xlabel := []\<rparr>
     \<and> marker_xs (ax sN) = [] \<and> marker_xs (ax sC) = []
     \<and> canvas sN = canvas s \<and> canvas sC = canvas s
     \<and> plot_ready sN = plot_ready s \<and> plot_ready sC = plot_ready s"
proof -
  let ?s0 = "s\<lparr>ax := [], xlabel := []\<rparr>"
  from x_axis_ok [OF assms(4,5)] obtain xs where xs: "x_axis w s = Inr xs" by blast
  then have xs0: "x_axis w ?s0 = Inr xs" by simp
  have N: "update_plot_N e w s =
      (s\<lparr>ax := [case read_where_N (N15_table s) (M_widget w) (B0_widget w) (theta_widget w)
                       (ms_widget w) of
                  [] \<Rightarrow> Text no_data_text
                | r # rs \<Rightarrow> Plot xs (n15_data r) ''Sim''], xlabel := []\<rparr>, Inl err)"
    by (simp add: update_plot_N_def py_bind_def ax_clear_def curve_N_run [OF xs0]
        overlay_N_load_error [OF assms(1,2,3)])
  have C: "update_plot_C e w s =
      (s\<lparr>ax := map (\<lambda>fam.
                  case read_where_C (C13_table s) (M_widget w) fam (B0_widget w) (ms_widget w) of
                    [] \<Rightarrow> Text no_data_text
                  | r # rs \<Rightarrow> Plot xs (c13_data r) fam) (families_widget w), xlabel := []\<rparr>, Inl err)"
    by (simp add: update_plot_C_def py_bind_def ax_clear_def curves_C_run [OF xs0]
        overlay_C_load_error [OF assms(1,2,3)] del: curves_C.simps)
  show ?thesis
    unfolding N C using xs
    by (auto simp add: marker_xs_curves split: list.splits)
qed

theorem unparsable_overlay_aborts_render_witness:
  "expt_chkbox (demo_tab\<lparr>expt_chkbox := True, expt_filename := ''bad.txt''\<rparr>)
   \<and> expt_filename (demo_tab\<lparr>expt_chkbox := True, expt_filename := ''bad.txt''\<rparr>) \<noteq> []
   \<and> loadtxt demo_env ''bad.txt'' = Inl ValueError
   \<and> unit_btngrp (demo_tab\<lparr>expt_chkbox := True, expt_filename := ''bad.txt''\<rparr>) = int 1
   \<and> (1::nat) < 4
   \<and> snd (update_plot_N demo_env (demo_tab\<lparr>expt_chkbox := True, expt_filename := ''bad.txt''\<rparr>) demo_app)
       = Inl ValueError
   \<and> marker_xs (ax (fst (update_plot_N demo_env
         (demo_tab\<lparr>expt_chkbox := True, expt_filename := ''bad.txt''\<rparr>) demo_app))) = []
   \<and> canvas (fst (update_plot_N demo_env
         (demo_tab\<lparr>expt_chkbox := True, expt_filename := ''bad.txt''\<rparr>) demo_app)) = []"
proof -
  let ?w = "demo_tab\<lparr>expt_chkbox := True, expt_filename := ''bad.txt''\<rparr>"
  have h1: "expt_chkbox ?w" and h2: "expt_filename ?w \<noteq> []"
    and h3: "loadtxt demo_env (expt_filename ?w) = Inl ValueError"
    and h4: "unit_btngrp ?w = int 1" and h5: "(1::nat) < 4"
    by (simp_all add: demo_tab_def demo_env_def)
  have c: "canvas demo_app = []" by (simp add: demo_app_def)
  from unparsable_overlay_aborts_render [OF h1 h2 h3 h4 h5, of demo_app]
  obtain sN where "update_plot_N demo_env ?w demo_app = (sN, Inl ValueError)"
    and "marker_xs (ax sN) = []" and "canvas sN = canvas demo_app"
    by blast
  then have "snd (update_plot_N demo_env ?w demo_app) = Inl ValueError
     \<and> marker_xs (ax (fst (update_plot_N demo_env ?w demo_app))) = []
     \<and> canvas (fst (update_plot_N demo_env ?w demo_app)) = []"
    by (simp add: c)
  with h1 h2 h3 h4 h5 show ?thesis by (simp add: demo_tab_def)
qed


text \<open>
  A request with a label selected and the field at 5 mT, whose experimental file cannot
  be parsed: \<open>update_plot_C\<close> ends with the exception, without a marker, and nothing
  is drawn on the canvas.
\<close>

theorem unparsable_overlay_counterexample:
  "loadtxt demo_env ''bad.txt'' = Inl ValueError
   \<and> B0_widget (demo_tab\<lparr>expt_chkbox := True, expt_filename := ''bad.txt''\<rparr>) = 5
   \<and> gyromagnetic_widget (demo_tab\<lparr>expt_chkbox := True, expt_filename := ''bad.txt''\<rparr>)
       = [''<sup>1</sup>H'']
   \<and> update_plot_C demo_env (demo_tab\<lparr>expt_chkbox := True, expt_filename := ''bad.txt''\<rparr>) demo_app
       = (demo_app\<lparr>ax :=
            [Plot (map (\<lambda>t. np_mul (Num t) (Num 1)) (tau demo_app)) (replicate 1000 1) ''A'',
             Plot (map (\<lambda>t. np_mul (Num t) (Num 1)) (tau demo_app)) (replicate 1000 (1 / 2)) ''B'']\<rparr>,
          Inl ValueError)
   \<and> marker_xs (ax (fst (update_plot_C demo_env
         (demo_tab\<lparr>expt_chkbox := True, expt_filename := ''bad.txt''\<rparr>) demo_app))) = []
   \<and> canvas (fst (update_plot_C demo_env
         (demo_tab\<lparr>expt_chkbox := True, expt_filename := ''bad.txt''\<rparr>) demo_app)) = []
   \<and> plot_ready (fst (update_plot_C demo_env
         (demo_tab\<lparr>expt_chkbox := True, expt_filename := ''bad.txt''\<rparr>) demo_app)) = False"
proof -
  let ?w = "demo_tab\<lparr>expt_chkbox := True, expt_filename := ''bad.txt''\<rparr>"
  have h1: "expt_chkbox ?w" and h2: "expt_filename ?w \<noteq> []"
    and h3: "loadtxt demo_env (expt_filename ?w) = Inl ValueError"
    by (simp_all add: demo_tab_def demo_env_def)
  have w: "M_widget ?w = 8" "B0_widget ?w = 5" "ms_widget ?w = - 1"
    "families_widget ?w = [''A'', ''B'']" "gyromagnetic_widget ?w = [''<sup>1</sup>H'']"
    by (simp_all add: demo_tab_def)
  have clr: "ax_clear demo_app = (demo_app, Inr ())"
    by (simp add: ax_clear_def demo_app_def)
  have x: "x_axis ?w demo_app = Inr (map (\<lambda>t. np_mul (Num t) (Num 1)) (tau demo_app))"
    by (simp add: x_axis_def demo_tab_def py_getitem_def unit_list_def py_let_def)
  have a: "ax demo_app = []" by (simp add: demo_app_def)
  have crv: "curves_C ?w [''A'', ''B''] None demo_app
     = (demo_app\<lparr>ax := [Plot (map (\<lambda>t. np_mul (Num t) (Num 1)) (tau demo_app)) (replicate 1000 1) ''A'',
                          Plot (map (\<lambda>t. np_mul (Num t) (Num 1)) (tau demo_app)) (replicate 1000 (1 / 2)) ''B'']\<rparr>,
        Inr (Some (Series (replicate 1000 (1 / 2)))))"
    unfolding curves_C_run [OF x] w
    by (simp only: list.map demo_read_A demo_read_B a) (simp add: demo_read_B)
  have run: "update_plot_C demo_env ?w demo_app
       = (demo_app\<lparr>ax :=
            [Plot (map (\<lambda>t. np_mul (Num t) (Num 1)) (tau demo_app)) (replicate 1000 1) ''A'',
             Plot (map (\<lambda>t. np_mul (Num t) (Num 1)) (tau demo_app)) (replicate 1000 (1 / 2)) ''B'']\<rparr>,
          Inl ValueError)"
    unfolding update_plot_C_def py_bind_def clr w
    by (simp only: crv prod.case sum.case overlay_C_load_error [OF h1 h2 h3])
  show ?thesis
    unfolding run using h3 w(2,5) by (simp add: demo_app_def)
qed

subsection \<open>The canonical axes\<close>

lemma length_linspace: "length (linspace a b n) = n"
  by (simp add: linspace_def)

lemma nth_linspace:
  assumes "2 \<le> n" and "i < n"
  shows "linspace a b n ! i = a + real i * ((b - a) / real (n - 1))"
proof (cases "i < n - 1")
  case True
  then show ?thesis using assms by (simp add: linspace_def nth_append)
next
  case False
  with assms have i: "i = n - 1" by simp
  have "real (n - 1) \<noteq> 0" using assms(1) by simp
  then have "a + real (n - 1) * ((b - a) / real (n - 1)) = b" by simp
  then show ?thesis using assms(1) by (simp add: linspace_def nth_append i)
qed

lemma linspace_pos:
  assumes "0 < a" and "a \<le> b" and "t \<in> set (linspace a b n)"
  shows "0 < t"
proof (cases "2 \<le> n")
  case True
  from assms(3) obtain i where i: "i < n" and t: "t = linspace a b n ! i"
    by (auto simp add: in_set_conv_nth length_linspace)
  have "0 \<le> real i * ((b - a) / real (n - 1))"
    using assms(2) by (intro mult_nonneg_nonneg divide_nonneg_nonneg) simp_all
  then show ?thesis using assms(1) by (simp add: t nth_linspace [OF True i])
next
  case False
  then have "n = 0 \<or> n = 1" by linarith
  then show ?thesis using assms(1,3) by (auto simp add: linspace_def)
qed

lemma load_data_axes:
  assumes "load_data ds self = Inr s"
  shows "tau s = linspace (5 / 100) 3 1000"
    and "freq s = map (\<lambda>t. time_to_freq (Num t)) (linspace (5 / 100) 3 1000)"
  using assms by (auto simp add: load_data_def py_let_def Let_def split: sum.splits)

lemma py_bind_keeps:
  assumes "\<And>s. tau (fst (m s)) = tau s \<and> freq (fst (m s)) = freq s"
    and "\<And>a s. tau (fst (f a s)) = tau s \<and> freq (fst (f a s)) = freq s"
  shows "tau (fst (py_bind m f s)) = tau s \<and> freq (fst (py_bind m f s)) = freq s"
proof (cases "m s")
  case (Pair s' r)
  with assms(1) [of s] have s': "tau s' = tau s \<and> freq s' = freq s" by simp
  show ?thesis
  proof (cases r)
    case (Inl e)
    with Pair s' show ?thesis by (simp add: py_bind_def)
  next
    case (Inr a)
    with Pair s' assms(2) [of a s'] show ?thesis by (simp add: py_bind_def)
  qed
qed

lemma ax_clear_keeps: "tau (fst (ax_clear s)) = tau s \<and> freq (fst (ax_clear s)) = freq s"
  by (simp add: ax_clear_def)

lemma ax_add_keeps: "tau (fst (ax_add r s)) = tau s \<and> freq (fst (ax_add r s)) = freq s"
  by (cases r) (simp_all add: ax_add_def)

lemma curve_N_keeps: "tau (fst (curve_N w s)) = tau s \<and> freq (fst (curve_N w s)) = freq s"
  by (simp add: curve_N_def split: list.splits sum.splits)

lemma curves_C_keeps:
  "tau (fst (curves_C w fams XY8 s)) = tau s \<and> freq (fst (curves_C w fams XY8 s)) = freq s"
  by (induction fams arbitrary: XY8 s) (simp_all split: list.splits sum.splits)

lemma overlay_N_keeps:
  "tau (fst (overlay_N e w XY8 s)) = tau s \<and> freq (fst (overlay_N e w XY8 s)) = freq s"
  by (simp add: overlay_N_def ax_add_keeps)

lemma overlay_C_keeps:
  "tau (fst (overlay_C e w XY8 s)) = tau s \<and> freq (fst (overlay_C e w XY8 s)) = freq s"
  by (simp add: overlay_C_def ax_add_keeps)

lemma marker_loop_N_keeps:
  "tau (fst (marker_loop_N cs w idx vals s)) = tau s
     \<and> freq (fst (marker_loop_N cs w idx vals s)) = freq s"
  by (induction vals arbitrary: idx s) (simp_all split: sum.splits)

lemma markers_N_keeps:
  "tau (fst (markers_N cs w s)) = tau s \<and> freq (fst (markers_N cs w s)) = freq s"
  by (simp add: markers_N_def marker_loop_N_keeps)

lemma markers_C_keeps:
  "tau (fst (markers_C cs w s)) = tau s \<and> freq (fst (markers_C cs w s)) = freq s"
  by (simp add: markers_C_def marker_loop_C_eq marker_loop_N_keeps)

lemma finish_keeps: "tau (fst (finish w s)) = tau s \<and> freq (fst (finish w s)) = freq s"
  by (simp add: finish_def Let_def split: sum.splits)

lemma update_plot_N_keeps:
  "tau (fst (update_plot_N e w s)) = tau s \<and> freq (fst (update_plot_N e w s)) = freq s"
  unfolding update_plot_N_def
  by (intro py_bind_keeps ax_clear_keeps curve_N_keeps overlay_N_keeps markers_N_keeps finish_keeps)

lemma update_plot_C_keeps:
  "tau (fst (update_plot_C e w s)) = tau s \<and> freq (fst (update_plot_C e w s)) = freq s"
  unfolding update_plot_C_def
  by (intro py_bind_keeps ax_clear_keeps curves_C_keeps overlay_C_keeps markers_C_keeps finish_keeps)



text \<open>
  Claim C7. The time axis that \<open>load_data\<close> stores has 1000 points, from 0.05 to 3,
  each a multiple of the same step after 0.05, and the frequency axis is \<open>1 / (2 tau)\<close>
  of each of them. Neither \<open>update_plot_N\<close> nor \<open>update_plot_C\<close> changes the two
  attributes, whatever the window and whether or not the method raises. With the unit
  index 0 and the frequency button checked the x axis of a curve is \<open>1 / (2 tau) / 1e3\<close>;
  with the time button it is \<open>tau * unit_list[u]\<close> for the unit index \<open>u\<close>.
\<close>

theorem canonical_axes:
  assumes "load_data ds self = Inr s"
  shows "length (tau s) = 1000 \<and> tau s ! 0 = 5 / 100 \<and> tau s ! 999 = 3
     \<and> (\<forall>i<1000. tau s ! i = 5 / 100 + real i * ((3 - 5 / 100) / 999))
     \<and> freq s = map (\<lambda>t. Num (1 / (2 * t))) (tau s)
     \<and> (\<forall>e w t. tau (fst (update_plot_N e w t)) = tau t \<and> freq (fst (update_plot_N e w t)) = freq t
              \<and> tau (fst (update_plot_C e w t)) = tau t \<and> freq (fst (update_plot_C e w t)) = freq t)
     \<and> (\<forall>w. unit_btngrp w = 0 \<and> radio2 w \<longrightarrow>
            x_axis w s = Inr (map (\<lambda>t. Num (1 / (2 * t) / 1000)) (tau s)))
     \<and> (\<forall>w u. unit_btngrp w = int u \<and> u < 4 \<and> \<not> radio2 w \<longrightarrow>
            x_axis w s = Inr (map (\<lambda>t. Num (t * unit_list ! u)) (tau s)))"
proof -
  note ax = load_data_axes [OF assms]
  have nth: "\<And>i. i < 1000 \<Longrightarrow> tau s ! i = 5 / 100 + real i * ((3 - 5 / 100) / 999)"
    using nth_linspace [of 1000 _ "5 / 100" 3] by (simp add: ax(1))
  have len: "length (tau s) = 1000" by (simp add: ax(1) length_linspace)
  have first: "tau s ! 0 = 5 / 100" using nth [of 0] by simp
  have last: "tau s ! 999 = 3" using nth [of 999] by simp
  have pos: "\<And>t. t \<in> set (tau s) \<Longrightarrow> t \<noteq> 0"
    using linspace_pos [of "5 / 100" 3 _ 1000] by (force simp add: ax(1))
  have fr: "freq s = map (\<lambda>t. Num (1 / (2 * t))) (tau s)"
    unfolding ax(2) ax(1) [symmetric]
    using pos by (simp add: time_to_freq_def)
  have keep: "\<forall>e w t. tau (fst (update_plot_N e w t)) = tau t \<and> freq (fst (update_plot_N e w t)) = freq t
              \<and> tau (fst (update_plot_C e w t)) = tau t \<and> freq (fst (update_plot_C e w t)) = freq t"
    by (simp add: update_plot_N_keeps update_plot_C_keeps)
  have xf: "\<forall>w. unit_btngrp w = 0 \<and> radio2 w \<longrightarrow>
            x_axis w s = Inr (map (\<lambda>t. Num (1 / (2 * t) / 1000)) (tau s))"
    by (simp add: x_axis_def py_getitem_def unit_list_def py_let_def fr)
  have xt: "\<forall>w u. unit_btngrp w = int u \<and> u < 4 \<and> \<not> radio2 w \<longrightarrow>
            x_axis w s = Inr (map (\<lambda>t. Num (t * unit_list ! u)) (tau s))"
    using unit_list_getitem by (simp add: x_axis_def py_let_def)
  from len first last nth fr keep xf xt show ?thesis by blast
qed

theorem canonical_axes_witness:
  "load_data demo_dataset \<lparr>N15_table = [], C13_table = [], tau = [], freq = [],
      gyromagnetic_ratios = Map.empty, ax = [], xlabel = [], messages = [],
      canvas = [], plot_ready = False\<rparr> = Inr demo_app
   \<and> length (tau demo_app) = 1000 \<and> tau demo_app ! 0 = 5 / 100 \<and> tau demo_app ! 999 = 3
   \<and> (1::nat) < 1000 \<and> tau demo_app ! 1 = 5 / 100 + real 1 * ((3 - 5 / 100) / 999)
   \<and> freq demo_app = map (\<lambda>t. Num (1 / (2 * t))) (tau demo_app)
   \<and> tau (fst (update_plot_N demo_env demo_tab demo_app)) = tau demo_app
   \<and> freq (fst (update_plot_C demo_env demo_tab demo_app)) = freq demo_app
   \<and> unit_btngrp (demo_tab\<lparr>unit_btngrp := 0, radio2 := True\<rparr>) = 0
   \<and> radio2 (demo_tab\<lparr>unit_btngrp := 0, radio2 := True\<rparr>)
   \<and> x_axis (demo_tab\<lparr>unit_btngrp := 0, radio2 := True\<rparr>) demo_app
       = Inr (map (\<lambda>t. Num (1 / (2 * t) / 1000)) (tau demo_app))
   \<and> unit_btngrp demo_tab = int 1 \<and> \<not> radio2 demo_tab
   \<and> x_axis demo_tab demo_app = Inr (map (\<lambda>t. Num (t * unit_list ! 1)) (tau demo_app))"
proof -
  let ?wf = "demo_tab\<lparr>unit_btngrp := 0, radio2 := True\<rparr>"
  note th = canonical_axes [OF load_demo]
  have wf: "unit_btngrp ?wf = 0 \<and> radio2 ?wf" by (simp add: demo_tab_def)
  have wt: "unit_btngrp demo_tab = int 1 \<and> (1::nat) < 4 \<and> \<not> radio2 demo_tab"
    by (simp add: demo_tab_def)
  have one: "(1::nat) < 1000" by simp
  from th have a: "length (tau demo_app) = 1000" "tau demo_app ! 0 = 5 / 100" "tau demo_app ! 999 = 3"
    "freq demo_app = map (\<lambda>t. Num (1 / (2 * t))) (tau demo_app)"
    by blast+
  from th one have b: "tau demo_app ! 1 = 5 / 100 + real 1 * ((3 - 5 / 100) / 999)" by blast
  from th have c: "tau (fst (update_plot_N demo_env demo_tab demo_app)) = tau demo_app"
    "freq (fst (update_plot_C demo_env demo_tab demo_app)) = freq demo_app"
    by blast+
  from th wf have d: "x_axis ?wf demo_app = Inr (map (\<lambda>t. Num (1 / (2 * t) / 1000)) (tau demo_app))"
    by blast
  from th wt have e: "x_axis demo_tab demo_app = Inr (map (\<lambda>t. Num (t * unit_list ! 1)) (tau demo_app))"
    by blast
  from load_demo a b c d e wf wt one show ?thesis by blast
qed

end
